theory Spec2Isabelle
  imports Complex_Main
begin

section \<open>Python values\<close>

text \<open>
  The fusion engine of \<^verbatim>\<open>data_fusion.py\<close> works on untyped, JSON-like data. A value
  is \<^verbatim>\<open>None\<close>, a boolean, a number, a string, a list or a dictionary. Dictionaries keep
  their insertion order, so they are association lists. Numbers (Python \<^verbatim>\<open>int\<close> and
  \<^verbatim>\<open>float\<close>) are modelled as reals: rounding, infinities and NaN are outside the model.
\<close>

datatype pyval =
    PNone
  | PBool bool
  | PNum real
  | PStr string
  | PList "pyval list"
  | PDict "(string \<times> pyval) list"

datatype py_error = AttributeError | TypeError | ZeroDivisionError

text \<open>Truthiness, as tested by \<^verbatim>\<open>not x\<close>.\<close>

fun truthy :: "pyval \<Rightarrow> bool" where
  "truthy PNone = False"
| "truthy (PBool b) = b"
| "truthy (PNum x) = (x \<noteq> 0)"
| "truthy (PStr s) = (s \<noteq> [])"
| "truthy (PList xs) = (xs \<noteq> [])"
| "truthy (PDict d) = (d \<noteq> [])"

text \<open>\<^verbatim>\<open>d.get(k, dflt)\<close> on a dictionary.\<close>

definition dict_get :: "(string \<times> 'v) list \<Rightarrow> string \<Rightarrow> 'v \<Rightarrow> 'v" where
  "dict_get d k dflt = (case map_of d k of None \<Rightarrow> dflt | Some v \<Rightarrow> v)"

text \<open>
  \<^verbatim>\<open>d[k] = v\<close>: an existing key keeps its position and gets the new value, a new key
  goes to the end.
\<close>

fun dict_set :: "string \<Rightarrow> 'v \<Rightarrow> (string \<times> 'v) list \<Rightarrow> (string \<times> 'v) list" where
  "dict_set k v [] = [(k, v)]"
| "dict_set k v ((k', v') # kvs) =
     (if k' = k then (k, v) # kvs else (k', v') # dict_set k v kvs)"

text \<open>
  \<^verbatim>\<open>x.get(k, dflt)\<close> on any value: only a dictionary has the method, everything else
  raises \<^verbatim>\<open>AttributeError\<close>.
\<close>

fun py_get :: "pyval \<Rightarrow> string \<Rightarrow> pyval \<Rightarrow> py_error + pyval" where
  "py_get (PDict d) k dflt = Inr (dict_get d k dflt)"
| "py_get _ k dflt = Inl AttributeError"

text \<open>
  The acceptance test \<^verbatim>\<open>x is not None and lo <= x <= hi\<close>. The result is the number
  that is recorded when the test succeeds, \<open>None\<close> when the test is false. A boolean
  compares as 0 or 1; a string, list or dictionary cannot be compared with a number and
  raises \<^verbatim>\<open>TypeError\<close>.
\<close>

fun accept :: "real \<Rightarrow> real \<Rightarrow> pyval \<Rightarrow> py_error + real option" where
  "accept lo hi PNone = Inr None"
| "accept lo hi (PNum v) = Inr (if lo \<le> v \<and> v \<le> hi then Some v else None)"
| "accept lo hi (PBool b) =
     Inr (if lo \<le> of_bool b \<and> of_bool b \<le> hi then Some (of_bool b) else None)"
| "accept lo hi (PStr s) = Inl TypeError"
| "accept lo hi (PList xs) = Inl TypeError"
| "accept lo hi (PDict d) = Inl TypeError"

section \<open>The reliability-weight table\<close>

definition satellite_weights :: "(string \<times> real) list" where
  "satellite_weights =
     [(''cartosat'', 1.0), (''sentinel2'', 0.95), (''irs'', 0.90), (''landsat8'', 0.85),
      (''sentinel1'', 0.80), (''risat'', 0.80), (''modis'', 0.60), (''oceansat'', 0.70)]"

text \<open>\<^verbatim>\<open>self.satellite_weights.get(sat_name, 0.5)\<close>\<close>

definition weight_of :: "string \<Rightarrow> real" where
  "weight_of sat_name = dict_get satellite_weights sat_name 0.5"

section \<open>Results of one metric\<close>

record cross_val =
  sources :: "(string \<times> real) list"
  fused :: real
  variance :: real
  agreement :: string
  num_sources :: nat

text \<open>The field \<^verbatim>\<open>value\<close> of the source is \<open>val\<close> here.\<close>

record metric_result =
  val :: real
  confidence :: real
  cross_val :: cross_val

text \<open>The contributors of a metric: source name to (value, weight).\<close>

type_synonym contributors = "(string \<times> real \<times> real) list"

section \<open>Helper methods\<close>

text \<open>\<^verbatim>\<open>np.var\<close>: the population variance.\<close>

definition np_var :: "real list \<Rightarrow> real" where
  "np_var xs =
     (let n = real (length xs); m = sum_list xs / n
      in sum_list (map (\<lambda>x. (x - m)\<^sup>2) xs) / n)"

definition calculate_confidence :: "nat \<Rightarrow> real \<Rightarrow> real \<Rightarrow> real" where
  "calculate_confidence n var max_variance =
     (let source_confidence = min (real n / 4.0) 1.0;
          variance_confidence = max 0.0 (1.0 - (var / max_variance));
          conf = source_confidence * 0.6 + variance_confidence * 0.4
      in min (max conf 0.0) 1.0)"

definition calculate_overall_confidence :: "(string \<times> real) list \<Rightarrow> real" where
  "calculate_overall_confidence confidence_scores =
     (if confidence_scores = [] then 0.0
      else let scores = map snd confidence_scores
           in sum_list scores / real (length scores))"

definition calculate_consensus_level :: "(string \<times> cross_val) list \<Rightarrow> string" where
  "calculate_consensus_level cvs =
     (if cvs = [] then ''Unknown''
      else let agreements = map (\<lambda>(m, cv). agreement cv) cvs;
               high_count = count_list agreements ''High'';
               medium_count = count_list agreements ''Medium''
           in if real high_count \<ge> real (length agreements) * 0.7 then ''High''
              else if real (high_count + medium_count) \<ge> real (length agreements) * 0.7
                   then ''Medium''
              else ''Low'')"

definition determine_quality :: "real \<Rightarrow> nat \<Rightarrow> string" where
  "determine_quality conf n =
     (if conf \<ge> 0.8 \<and> n \<ge> 4 then ''Excellent''
      else if conf \<ge> 0.7 \<and> n \<ge> 3 then ''Good''
      else if conf \<ge> 0.5 \<and> n \<ge> 2 then ''Fair''
      else ''Limited'')"

section \<open>Per-metric fusion\<close>

text \<open>
  The four routines \<^verbatim>\<open>_fuse_ndvi\<close>, \<^verbatim>\<open>_fuse_temperature\<close>, \<^verbatim>\<open>_fuse_moisture\<close> and
  \<^verbatim>\<open>_fuse_evi\<close> end with the same statements, which differ in three constants only: the
  maximal variance and the two thresholds of the agreement tier. \<open>fuse_contributors\<close> is
  that common part, from \<^verbatim>\<open>if not ndvi_sources: return None\<close> to the returned
  dictionary. The division by the total weight raises on a zero divisor in Python.
\<close>

definition fuse_contributors ::
  "contributors \<Rightarrow> real \<Rightarrow> real \<Rightarrow> real \<Rightarrow> py_error + metric_result option" where
  "fuse_contributors srcs max_variance high_below medium_below =
     (if srcs = [] then Inr None
      else
        let total_weight = sum_list (map (\<lambda>(n, v, w). w) srcs) in
        if total_weight = 0 then Inl ZeroDivisionError
        else
          let fused_value = sum_list (map (\<lambda>(n, v, w). v * w) srcs) / total_weight;
              values = map (\<lambda>(n, v, w). v) srcs;
              var = (if length values > 1 then np_var values else 0.0);
              conf = calculate_confidence (length srcs) var max_variance;
              agr = (if var < high_below then ''High''
                     else if var < medium_below then ''Medium'' else ''Low'')
          in Inr (Some \<lparr>val = fused_value, confidence = conf,
                cross_val = \<lparr>sources = map (\<lambda>(n, v, w). (n, v)) srcs,
                             fused = fused_value, variance = var, agreement = agr,
                             num_sources = length srcs\<rparr>\<rparr>))"

subsection \<open>NDVI and EVI\<close>

text \<open>\<^verbatim>\<open>indices = sat_data.get('indices', {}); ndvi = indices.get('ndvi')\<close>\<close>

definition extract_index :: "string \<Rightarrow> pyval \<Rightarrow> py_error + pyval" where
  "extract_index key sat_data =
     (case py_get sat_data ''indices'' (PDict []) of
        Inl e \<Rightarrow> Inl e
      | Inr indices \<Rightarrow> py_get indices key PNone)"

fun ndvi_sources_loop :: "(string \<times> pyval) list \<Rightarrow> contributors \<Rightarrow> py_error + contributors" where
  "ndvi_sources_loop [] ndvi_sources = Inr ndvi_sources"
| "ndvi_sources_loop ((sat_name, sat_data) # rest) ndvi_sources =
     (if sat_name \<in> set [''sentinel2'', ''landsat8'', ''irs''] then
        (case extract_index ''ndvi'' sat_data of
           Inl e \<Rightarrow> Inl e
         | Inr ndvi \<Rightarrow>
            (case accept (-1) 1 ndvi of
               Inl e \<Rightarrow> Inl e
             | Inr None \<Rightarrow> ndvi_sources_loop rest ndvi_sources
             | Inr (Some v) \<Rightarrow>
                 ndvi_sources_loop rest
                   (dict_set sat_name (v, weight_of sat_name) ndvi_sources)))
      else ndvi_sources_loop rest ndvi_sources)"

definition fuse_ndvi :: "(string \<times> pyval) list \<Rightarrow> py_error + metric_result option" where
  "fuse_ndvi satellites =
     (case ndvi_sources_loop satellites [] of
        Inl e \<Rightarrow> Inl e
      | Inr ndvi_sources \<Rightarrow> fuse_contributors ndvi_sources 0.04 0.02 0.05)"

fun evi_sources_loop :: "(string \<times> pyval) list \<Rightarrow> contributors \<Rightarrow> py_error + contributors" where
  "evi_sources_loop [] evi_sources = Inr evi_sources"
| "evi_sources_loop ((sat_name, sat_data) # rest) evi_sources =
     (if sat_name \<in> set [''sentinel2'', ''landsat8'', ''irs''] then
        (case extract_index ''evi'' sat_data of
           Inl e \<Rightarrow> Inl e
         | Inr evi \<Rightarrow>
            (case accept (-1) 1 evi of
               Inl e \<Rightarrow> Inl e
             | Inr None \<Rightarrow> evi_sources_loop rest evi_sources
             | Inr (Some v) \<Rightarrow>
                 evi_sources_loop rest
                   (dict_set sat_name (v, weight_of sat_name) evi_sources)))
      else evi_sources_loop rest evi_sources)"

definition fuse_evi :: "(string \<times> pyval) list \<Rightarrow> py_error + metric_result option" where
  "fuse_evi satellites =
     (case evi_sources_loop satellites [] of
        Inl e \<Rightarrow> Inl e
      | Inr evi_sources \<Rightarrow> fuse_contributors evi_sources 0.04 0.02 0.05)"

subsection \<open>Temperature\<close>

text \<open>
  The extraction at the head of the loop body of \<^verbatim>\<open>_fuse_temperature\<close>: the value of
  \<^verbatim>\<open>temp\<close> before the acceptance test. Only the branch for \<^verbatim>\<open>modis\<close> looks inside a
  nested dictionary.
\<close>

definition extract_temperature :: "string \<Rightarrow> pyval \<Rightarrow> py_error + pyval" where
  "extract_temperature sat_name sat_data =
     (if sat_name = ''landsat8'' then py_get sat_data ''temperature'' PNone
      else if sat_name = ''modis'' then
        (case py_get sat_data ''temperature'' (PDict []) of
           Inl e \<Rightarrow> Inl e
         | Inr temp_data \<Rightarrow>
            (case temp_data of
               PDict td \<Rightarrow> Inr (dict_get td ''land_surface'' (dict_get td ''mean'' PNone))
             | _ \<Rightarrow> Inr temp_data))
      else if sat_name = ''irs'' then py_get sat_data ''temperature'' PNone
      else Inr PNone)"

fun temp_sources_loop :: "(string \<times> pyval) list \<Rightarrow> contributors \<Rightarrow> py_error + contributors" where
  "temp_sources_loop [] temp_sources = Inr temp_sources"
| "temp_sources_loop ((sat_name, sat_data) # rest) temp_sources =
     (case extract_temperature sat_name sat_data of
        Inl e \<Rightarrow> Inl e
      | Inr temp \<Rightarrow>
         (case accept 0 60 temp of
            Inl e \<Rightarrow> Inl e
          | Inr None \<Rightarrow> temp_sources_loop rest temp_sources
          | Inr (Some v) \<Rightarrow>
              temp_sources_loop rest
                (dict_set sat_name (v, weight_of sat_name) temp_sources)))"

definition fuse_temperature :: "(string \<times> pyval) list \<Rightarrow> py_error + metric_result option" where
  "fuse_temperature satellites =
     (case temp_sources_loop satellites [] of
        Inl e \<Rightarrow> Inl e
      | Inr temp_sources \<Rightarrow> fuse_contributors temp_sources 4.0 1.0 3.0)"

subsection \<open>Soil moisture\<close>

fun moisture_sources_loop :: "(string \<times> pyval) list \<Rightarrow> contributors \<Rightarrow> py_error + contributors" where
  "moisture_sources_loop [] moisture_sources = Inr moisture_sources"
| "moisture_sources_loop ((sat_name, sat_data) # rest) moisture_sources =
     (if sat_name \<in> set [''sentinel1'', ''risat''] then
        (case py_get sat_data ''soil_moisture_estimate'' PNone of
           Inl e \<Rightarrow> Inl e
         | Inr moisture \<Rightarrow>
            (case accept 0 100 moisture of
               Inl e \<Rightarrow> Inl e
             | Inr None \<Rightarrow> moisture_sources_loop rest moisture_sources
             | Inr (Some v) \<Rightarrow>
                 moisture_sources_loop rest
                   (dict_set sat_name (v, weight_of sat_name) moisture_sources)))
      else moisture_sources_loop rest moisture_sources)"

definition fuse_moisture :: "(string \<times> pyval) list \<Rightarrow> py_error + metric_result option" where
  "fuse_moisture satellites =
     (case moisture_sources_loop satellites [] of
        Inl e \<Rightarrow> Inl e
      | Inr moisture_sources \<Rightarrow> fuse_contributors moisture_sources 100.0 25 50)"

section \<open>Validation and filtering\<close>

fun filter_valid_loop ::
  "(string \<times> pyval) list \<Rightarrow> (string \<times> pyval) list \<Rightarrow> py_error + (string \<times> pyval) list" where
  "filter_valid_loop [] valid = Inr valid"
| "filter_valid_loop ((sat_name, sat_data) # rest) valid =
     (if \<not> truthy sat_data then filter_valid_loop rest valid
      else
        (case py_get sat_data ''status'' (PStr '''') of
           Inl e \<Rightarrow> Inl e
         | Inr status \<Rightarrow>
            if status \<in> set [PStr ''success'', PStr ''fallback'', PStr ''simulated'']
            then filter_valid_loop rest (dict_set sat_name sat_data valid)
            else filter_valid_loop rest valid))"

text \<open>\<^verbatim>\<open>satellites.items()\<close> exists on a dictionary only.\<close>

fun filter_valid_satellites :: "pyval \<Rightarrow> py_error + (string \<times> pyval) list" where
  "filter_valid_satellites (PDict satellites) = filter_valid_loop satellites []"
| "filter_valid_satellites _ = Inl AttributeError"

section \<open>The main fusion method\<close>

text \<open>
  The report is the dictionary \<^verbatim>\<open>fused\<close>. The keys \<^verbatim>\<open>status\<close>, \<^verbatim>\<open>message\<close> and
  \<^verbatim>\<open>overall_confidence\<close> are not in the dictionary as it is first built, and are assigned
  on some paths only: for these three fields \<open>None\<close> means that the key is absent.
\<close>

record fusion_report =
  timestamp :: string
  location :: pyval
  fused_metrics :: "(string \<times> real) list"
  cross_validation :: "(string \<times> cross_val) list"
  confidence_scores :: "(string \<times> real) list"
  data_sources :: "string list"
  consensus_level :: string
  overall_quality :: string
  overall_confidence :: "real option"
  status :: "string option"
  message :: "string option"

text \<open>
  The first return statement gives a dictionary with the two keys \<^verbatim>\<open>status\<close> and
  \<^verbatim>\<open>message\<close> only; the other two return the report.
\<close>

datatype fusion_output = Invalid_input string string | Report fusion_report

text \<open>
  \<^verbatim>\<open>if fused_x: fused['fused_metrics'][m] = fused_x['value']; ...\<close>, the same three
  assignments after each of the four routines.
\<close>

fun store_metric :: "string \<Rightarrow> metric_result option \<Rightarrow> fusion_report \<Rightarrow> fusion_report" where
  "store_metric m None rep = rep"
| "store_metric m (Some r) rep =
     rep\<lparr>fused_metrics := dict_set m (val r) (fused_metrics rep),
         confidence_scores := dict_set m (confidence r) (confidence_scores rep),
         cross_validation := dict_set m (cross_val r) (cross_validation rep)\<rparr>"

text \<open>
  The part of \<^verbatim>\<open>fuse_satellite_data\<close> after the filtered mapping was found non-empty.
  An exception of one of the four routines ends the call.
\<close>

definition fuse_valid :: "(string \<times> pyval) list \<Rightarrow> fusion_report \<Rightarrow> py_error + fusion_report" where
  "fuse_valid valid_satellites rep0 =
     (let rep1 = rep0\<lparr>data_sources := map fst valid_satellites\<rparr> in
      (case fuse_ndvi valid_satellites of Inl e \<Rightarrow> Inl e | Inr fused_ndvi \<Rightarrow>
      (let rep2 = store_metric ''ndvi'' fused_ndvi rep1 in
      (case fuse_temperature valid_satellites of Inl e \<Rightarrow> Inl e | Inr fused_temp \<Rightarrow>
      (let rep3 = store_metric ''temperature'' fused_temp rep2 in
      (case fuse_moisture valid_satellites of Inl e \<Rightarrow> Inl e | Inr fused_moisture \<Rightarrow>
      (let rep4 = store_metric ''soil_moisture'' fused_moisture rep3 in
      (case fuse_evi valid_satellites of Inl e \<Rightarrow> Inl e | Inr fused_evi \<Rightarrow>
      (let rep5 = store_metric ''evi'' fused_evi rep4;
           oc = calculate_overall_confidence (confidence_scores rep5);
           rep6 = rep5\<lparr>overall_confidence := Some oc\<rparr>;
           rep7 = rep6\<lparr>consensus_level := calculate_consensus_level (cross_validation rep6)\<rparr>;
           rep8 = rep7\<lparr>overall_quality := determine_quality oc (length valid_satellites)\<rparr>
       in Inr (rep8\<lparr>status := Some ''success''\<rparr>))))))))))"

text \<open>
  \<open>now\<close> is the string that \<^verbatim>\<open>datetime.now().isoformat()\<close> returns during the call:
  the clock is the one input of the method besides its argument. The argument is a
  dictionary, as the signature declares.
\<close>

definition fuse_satellite_data :: "string \<Rightarrow> (string \<times> pyval) list \<Rightarrow> py_error + fusion_output" where
  "fuse_satellite_data now satellite_data =
     (if satellite_data = [] \<or> map_of satellite_data ''satellites'' = None
      then Inr (Invalid_input ''error'' ''Invalid input data'')
      else
        let satellites = dict_get satellite_data ''satellites'' PNone;
            rep0 = \<lparr>timestamp = now,
                    location = dict_get satellite_data ''location'' (PDict []),
                    fused_metrics = [], cross_validation = [], confidence_scores = [],
                    data_sources = [], consensus_level = ''Unknown'',
                    overall_quality = ''Unknown'', overall_confidence = None,
                    status = None, message = None\<rparr>
        in case filter_valid_satellites satellites of
             Inl e \<Rightarrow> Inl e
           | Inr valid_satellites \<Rightarrow>
              if valid_satellites = []
              then Inr (Report (rep0\<lparr>status := Some ''no_valid_data'',
                     message := Some ''No valid satellite data available for fusion''\<rparr>))
              else (case fuse_valid valid_satellites rep0 of
                      Inl e \<Rightarrow> Inl e
                    | Inr rep \<Rightarrow> Inr (Report rep)))"

section \<open>Devices for the proofs\<close>

text \<open>
  The four loops that gather the contributors of a metric have one shape: extract the
  raw value of the source, test it, record it. \<open>collect\<close> is that shape, with the
  extraction and the bounds as parameters; each loop is shown below to be an instance.
\<close>

fun collect ::
  "(string \<Rightarrow> pyval \<Rightarrow> py_error + pyval) \<Rightarrow> real \<Rightarrow> real \<Rightarrow> (string \<times> pyval) list \<Rightarrow> contributors
     \<Rightarrow> py_error + contributors" where
  "collect ext lo hi [] acc = Inr acc"
| "collect ext lo hi ((n, sd) # rest) acc =
     (case ext n sd of
        Inl e \<Rightarrow> Inl e
      | Inr x \<Rightarrow>
         (case accept lo hi x of
            Inl e \<Rightarrow> Inl e
          | Inr None \<Rightarrow> collect ext lo hi rest acc
          | Inr (Some v) \<Rightarrow> collect ext lo hi rest (dict_set n (v, weight_of n) acc)))"

text \<open>The extraction of the two optical loops and of the moisture loop, with their guards.\<close>

definition optical_ext :: "string \<Rightarrow> string \<Rightarrow> pyval \<Rightarrow> py_error + pyval" where
  "optical_ext key n sd =
     (if n \<in> set [''sentinel2'', ''landsat8'', ''irs''] then extract_index key sd else Inr PNone)"

definition moisture_ext :: "string \<Rightarrow> pyval \<Rightarrow> py_error + pyval" where
  "moisture_ext n sd =
     (if n \<in> set [''sentinel1'', ''risat''] then py_get sd ''soil_moisture_estimate'' PNone
      else Inr PNone)"

text \<open>The number that Python computes with: a boolean counts as 0 or 1.\<close>

fun number_of :: "pyval \<Rightarrow> real option" where
  "number_of (PNum v) = Some v"
| "number_of (PBool b) = Some (of_bool b)"
| "number_of _ = None"

section \<open>The properties, in the words of the specification\<close>

text \<open>
  The confidence of a metric as the specification writes it, from the number of
  contributors and the variance of their values.
\<close>

definition spec_confidence :: "nat \<Rightarrow> real \<Rightarrow> real \<Rightarrow> real" where
  "spec_confidence contributor_count var max_variance =
     min 1 (max 0 (0.6 * min (real contributor_count / 4) 1 + 0.4 * max 0 (1 - var / max_variance)))"

text \<open>
  The population variance of a list of values, as the mean of the squares less the
  square of the mean; the specification takes 0 for fewer than two values.
\<close>

definition population_variance :: "real list \<Rightarrow> real" where
  "population_variance xs =
     sum_list (map (\<lambda>x. x * x) xs) / real (length xs) - (sum_list xs / real (length xs))\<^sup>2"

definition spec_variance :: "real list \<Rightarrow> real" where
  "spec_variance values = (if length values < 2 then 0 else population_variance values)"

text \<open>
  The contributors of a metric, read off the input: every source, in the order of the
  mapping, for which the extraction of the metric yields a number within the bounds,
  with that number.
\<close>

definition reported_number :: "real \<Rightarrow> real \<Rightarrow> py_error + pyval \<Rightarrow> real option" where
  "reported_number lo hi res =
     (case res of
        Inl e \<Rightarrow> None
      | Inr x \<Rightarrow>
         (case number_of x of
            None \<Rightarrow> None
          | Some v \<Rightarrow> if lo \<le> v \<and> v \<le> hi then Some v else None))"

definition spec_contributors ::
  "(string \<Rightarrow> pyval \<Rightarrow> py_error + pyval) \<Rightarrow> real \<Rightarrow> real \<Rightarrow> (string \<times> pyval) list
     \<Rightarrow> (string \<times> real) list" where
  "spec_contributors ext lo hi sats =
     List.map_filter (\<lambda>(n, sd). map_option (Pair n) (reported_number lo hi (ext n sd))) sats"

text \<open>
  The confidence that the specification assigns to a metric for a given input: none
  when nothing contributes, else the formula at the number of contributors and the
  variance of their values. A routine reports it when the confidence, the recorded
  sources, their number and the recorded variance are those of the input.
\<close>

definition spec_metric_confidence ::
  "(string \<Rightarrow> pyval \<Rightarrow> py_error + pyval) \<Rightarrow> real \<Rightarrow> real \<Rightarrow> real \<Rightarrow> (string \<times> pyval) list
     \<Rightarrow> real option" where
  "spec_metric_confidence ext lo hi max_variance sats =
     (let values = map snd (spec_contributors ext lo hi sats)
      in if values = [] then None
         else Some (spec_confidence (length values) (spec_variance values) max_variance))"

definition confidence_as_specified ::
  "(string \<Rightarrow> pyval \<Rightarrow> py_error + pyval) \<Rightarrow> real \<Rightarrow> real \<Rightarrow> real \<Rightarrow> (string \<times> pyval) list
     \<Rightarrow> metric_result option \<Rightarrow> bool" where
  "confidence_as_specified ext lo hi max_variance sats res =
     (map_option confidence res = spec_metric_confidence ext lo hi max_variance sats \<and>
      (case res of
         None \<Rightarrow> True
       | Some r \<Rightarrow>
           sources (cross_val r) = spec_contributors ext lo hi sats \<and>
           num_sources (cross_val r) = length (spec_contributors ext lo hi sats) \<and>
           variance (cross_val r) = spec_variance (map snd (spec_contributors ext lo hi sats))))"

text \<open>
  The fused value lies in the valid range of the metric. Every contribution recorded
  in the cross-validation lies in the range and is the number that a source of that
  name reported, as it was reported.
\<close>

definition value_in_range :: "real \<Rightarrow> real \<Rightarrow> metric_result \<Rightarrow> bool" where
  "value_in_range lo hi r = (lo \<le> val r \<and> val r \<le> hi)"

definition contributions_unclamped ::
  "(string \<Rightarrow> pyval \<Rightarrow> py_error + pyval) \<Rightarrow> real \<Rightarrow> real \<Rightarrow> (string \<times> pyval) list \<Rightarrow> metric_result \<Rightarrow> bool" where
  "contributions_unclamped ext lo hi sats r =
     (\<forall>(n, v)\<in>set (sources (cross_val r)).
        lo \<le> v \<and> v \<le> hi \<and>
        (\<exists>(m, sd)\<in>set sats. m = n \<and>
           (case ext n sd of Inl e \<Rightarrow> False | Inr x \<Rightarrow> number_of x = Some v)))"

text \<open>
  An entry of the satellites mapping that the source filter drops: a missing or empty
  entry, or one whose status is none of \<^verbatim>\<open>success\<close>, \<^verbatim>\<open>fallback\<close>, \<^verbatim>\<open>simulated\<close>.
\<close>

fun excluded_entry :: "pyval \<Rightarrow> bool" where
  "excluded_entry (PDict sd) =
     (sd = [] \<or>
      dict_get sd ''status'' (PStr '''') \<notin> set [PStr ''success'', PStr ''fallback'', PStr ''simulated''])"
| "excluded_entry v = (\<not> truthy v)"

text \<open>The outcome of a call with the time stamp of the report blanked.\<close>

fun without_timestamp :: "py_error + fusion_output \<Rightarrow> py_error + fusion_output" where
  "without_timestamp (Inr (Report rep)) = Inr (Report (rep\<lparr>timestamp := []\<rparr>))"
| "without_timestamp out = out"

fun is_dict :: "pyval \<Rightarrow> bool" where
  "is_dict (PDict d) = True"
| "is_dict _ = False"

text \<open>
  A source name that the filter leaves out of a satellites mapping: the name is absent,
  or its entry is one the filter drops.
\<close>

definition source_excluded :: "(string \<times> pyval) list \<Rightarrow> string \<Rightarrow> bool" where
  "source_excluded sats n =
     (case map_of sats n of None \<Rightarrow> True | Some sd \<Rightarrow> excluded_entry sd)"

text \<open>
  A source entry all of whose metric values are numbers or missing: the indices, when
  present, are a dictionary whose NDVI and EVI are numbers or \<^verbatim>\<open>None\<close>; the temperature
  is a number or \<^verbatim>\<open>None\<close>, or, for MODIS, a profile whose \<^verbatim>\<open>land_surface\<close> and \<^verbatim>\<open>mean\<close>
  are; the soil moisture is a number or \<^verbatim>\<open>None\<close>. An entry that is no dictionary is a
  missing one.
\<close>

fun num_or_none :: "pyval \<Rightarrow> bool" where
  "num_or_none PNone = True"
| "num_or_none (PNum v) = True"
| "num_or_none (PBool b) = True"
| "num_or_none _ = False"

definition field_ok :: "(string \<times> pyval) list \<Rightarrow> string \<Rightarrow> bool" where
  "field_ok d k = (case map_of d k of None \<Rightarrow> True | Some v \<Rightarrow> num_or_none v)"

fun indices_ok :: "pyval option \<Rightarrow> bool" where
  "indices_ok None = True"
| "indices_ok (Some (PDict ix)) = (field_ok ix ''ndvi'' \<and> field_ok ix ''evi'')"
| "indices_ok (Some _) = False"

fun temperature_ok :: "string \<Rightarrow> pyval option \<Rightarrow> bool" where
  "temperature_ok n None = True"
| "temperature_ok n (Some (PDict td)) =
     (n = ''modis'' \<and> field_ok td ''land_surface'' \<and> field_ok td ''mean'')"
| "temperature_ok n (Some v) = num_or_none v"

fun well_shaped_source :: "string \<Rightarrow> pyval \<Rightarrow> bool" where
  "well_shaped_source n (PDict sd) =
     (indices_ok (map_of sd ''indices'') \<and> temperature_ok n (map_of sd ''temperature'') \<and>
      field_ok sd ''soil_moisture_estimate'')"
| "well_shaped_source n v = (\<not> truthy v)"

text \<open>
  An extraction that yields a number within the bounds, and a source that is among
  the contributors a report records for a metric.
\<close>

definition reports_in_range :: "real \<Rightarrow> real \<Rightarrow> py_error + pyval \<Rightarrow> bool" where
  "reports_in_range lo hi res =
     (case res of
        Inl e \<Rightarrow> False
      | Inr x \<Rightarrow> (case number_of x of None \<Rightarrow> False | Some v \<Rightarrow> lo \<le> v \<and> v \<le> hi))"

definition contributes :: "fusion_report \<Rightarrow> string \<Rightarrow> string \<Rightarrow> bool" where
  "contributes rep metric n =
     (case map_of (cross_validation rep) metric of
        None \<Rightarrow> False
      | Some cv \<Rightarrow> n \<in> fst ` set (sources cv))"

section \<open>Example inputs\<close>

text \<open>The satellites of the mock input in \<^verbatim>\<open>test_fusion_engine\<close>.\<close>

definition test_satellites :: "(string \<times> pyval) list" where
  "test_satellites =
     [(''sentinel2'', PDict [(''status'', PStr ''success''),
         (''indices'', PDict [(''ndvi'', PNum 0.65), (''evi'', PNum 0.52)])]),
      (''landsat8'', PDict [(''status'', PStr ''success''), (''temperature'', PNum 28.5),
         (''indices'', PDict [(''ndvi'', PNum 0.63), (''evi'', PNum 0.50)])]),
      (''sentinel1'', PDict [(''status'', PStr ''success''),
         (''soil_moisture_estimate'', PNum 45.0)]),
      (''irs'', PDict [(''status'', PStr ''simulated''),
         (''indices'', PDict [(''ndvi'', PNum 0.64), (''evi'', PNum 0.51)])])]"

text \<open>The mock input itself, with its location.\<close>

definition test_input :: "(string \<times> pyval) list" where
  "test_input =
     [(''location'', PDict [(''lat'', PNum 28.6139), (''lon'', PNum 77.2090)]),
      (''satellites'', PDict test_satellites)]"

text \<open>A source whose every value is outside the valid range of its metric.\<close>

definition out_of_range_source :: pyval where
  "out_of_range_source =
     PDict [(''status'', PStr ''success''),
            (''indices'', PDict [(''ndvi'', PNum 1.5), (''evi'', PNum (-2))]),
            (''temperature'', PNum (-5)),
            (''soil_moisture_estimate'', PNum 120)]"

text \<open>
  A sub-zero surface temperature beside a temperature profile of the kind the MODIS
  producer of the repository emits, with a mean added.
\<close>

definition freezing_landsat8 :: pyval where
  "freezing_landsat8 = PDict [(''status'', PStr ''success''), (''temperature'', PNum (-5))]"

definition modis_profile :: pyval where
  "modis_profile =
     PDict [(''status'', PStr ''success''),
            (''temperature'', PDict [(''day'', PNum 31), (''night'', PNum 18),
                                     (''mean'', PNum 24)])]"

definition freezing_satellites :: "(string \<times> pyval) list" where
  "freezing_satellites = [(''landsat8'', freezing_landsat8), (''modis'', modis_profile)]"

text \<open>The concrete scenario of the specification: three optical sources that report an NDVI.\<close>

definition scenario_satellites :: "(string \<times> pyval) list" where
  "scenario_satellites =
     [(''sentinel2'', PDict [(''status'', PStr ''success''), (''indices'', PDict [(''ndvi'', PNum 0.65)])]),
      (''landsat8'', PDict [(''status'', PStr ''success''), (''indices'', PDict [(''ndvi'', PNum 0.63)])]),
      (''irs'', PDict [(''status'', PStr ''success''), (''indices'', PDict [(''ndvi'', PNum 0.64)])])]"

definition scenario_input :: "(string \<times> pyval) list" where
  "scenario_input = [(''satellites'', PDict scenario_satellites)]"

text \<open>
  The empty mapping, a mapping whose every source failed, a temperature profile sent
  by a source other than MODIS, and a MODIS reading with a flat temperature.
\<close>

definition empty_input :: "(string \<times> pyval) list" where
  "empty_input = [(''satellites'', PDict [])]"

definition failed_input :: "(string \<times> pyval) list" where
  "failed_input =
     [(''location'', PDict [(''lat'', PNum 28.6139), (''lon'', PNum 77.2090)]),
      (''satellites'', PDict
         [(''irs'', PDict [(''status'', PStr ''error''), (''error'', PStr ''timeout'')]),
          (''risat'', PNone),
          (''modis'', PDict [])])]"



text \<open>A source that reports one value for every metric, to stand under several names.\<close>

definition agreeing_source :: pyval where
  "agreeing_source =
     PDict [(''status'', PStr ''success''),
            (''indices'', PDict [(''ndvi'', PNum 0.65), (''evi'', PNum 0.5)]),
            (''temperature'', PNum 24),
            (''soil_moisture_estimate'', PNum 45)]"

text \<open>
  A mapping in which one source failed although it carries values, one is missing,
  and two are eligible.
\<close>

definition partly_failed_satellites :: "(string \<times> pyval) list" where
  "partly_failed_satellites =
     [(''sentinel2'', PDict [(''status'', PStr ''success''),
         (''indices'', PDict [(''ndvi'', PNum 0.65), (''evi'', PNum 0.52)])]),
      (''irs'', PDict [(''status'', PStr ''error''), (''error'', PStr ''timeout''),
         (''indices'', PDict [(''ndvi'', PNum 0.9)]), (''temperature'', PNum 30)]),
      (''risat'', PNone),
      (''landsat8'', PDict [(''status'', PStr ''fallback''), (''temperature'', PNum 28.5),
         (''indices'', PDict [(''ndvi'', PNum 0.63)])])]"

definition partly_failed_input :: "(string \<times> pyval) list" where
  "partly_failed_input = [(''satellites'', PDict partly_failed_satellites)]"

text \<open>
  A source with a string for its NDVI; and a mapping with per-source defects only:
  an NDVI of \<^verbatim>\<open>None\<close>, an NDVI above 1, a radar source without a moisture estimate and
  a temperature profile with neither \<^verbatim>\<open>land_surface\<close> nor \<^verbatim>\<open>mean\<close>.
\<close>

definition malformed_input :: "(string \<times> pyval) list" where
  "malformed_input =
     [(''satellites'', PDict
        [(''sentinel2'', PDict [(''status'', PStr ''success''),
            (''indices'', PDict [(''ndvi'', PStr ''high'')])])])]"

definition defective_sentinel2 :: pyval where
  "defective_sentinel2 =
     PDict [(''status'', PStr ''success''),
            (''indices'', PDict [(''ndvi'', PNone), (''evi'', PNum 0.52)])]"

definition defective_landsat8 :: pyval where
  "defective_landsat8 =
     PDict [(''status'', PStr ''success''), (''temperature'', PNum 28.5),
            (''indices'', PDict [(''ndvi'', PNum 1.7)])]"

definition defective_satellites :: "(string \<times> pyval) list" where
  "defective_satellites =
     [(''sentinel2'', defective_sentinel2),
      (''landsat8'', defective_landsat8),
      (''sentinel1'', PDict [(''status'', PStr ''success'')]),
      (''modis'', PDict [(''status'', PStr ''success''),
         (''temperature'', PDict [(''day'', PNum 31), (''night'', PNum 18)])])]"

definition defective_input :: "(string \<times> pyval) list" where
  "defective_input = [(''satellites'', PDict defective_satellites)]"

section \<open>The loops as instances of one shape\<close>

lemma ndvi_loop_collect: "ndvi_sources_loop sats acc = collect (optical_ext ''ndvi'') (-1) 1 sats acc"
  by (induction sats acc rule: ndvi_sources_loop.induct)
     (auto simp: optical_ext_def split: sum.splits option.splits)

lemma evi_loop_collect: "evi_sources_loop sats acc = collect (optical_ext ''evi'') (-1) 1 sats acc"
  by (induction sats acc rule: evi_sources_loop.induct)
     (auto simp: optical_ext_def split: sum.splits option.splits)

lemma temp_loop_collect: "temp_sources_loop sats acc = collect extract_temperature 0 60 sats acc"
  by (induction sats acc rule: temp_sources_loop.induct)
     (auto split: sum.splits option.splits)

lemma moisture_loop_collect: "moisture_sources_loop sats acc = collect moisture_ext 0 100 sats acc"
  by (induction sats acc rule: moisture_sources_loop.induct)
     (auto simp: moisture_ext_def split: sum.splits option.splits)

lemma accept_Some: "accept lo hi x = Inr (Some v) \<longleftrightarrow> number_of x = Some v \<and> lo \<le> v \<and> v \<le> hi"
  by (cases x) auto

lemma accept_None: "accept lo hi x = Inr None \<longleftrightarrow> x = PNone \<or> (\<exists>v. number_of x = Some v \<and> \<not> (lo \<le> v \<and> v \<le> hi))"
  by (cases x) auto

lemma collect_append:
  "collect ext lo hi (xs @ ys) acc =
     (case collect ext lo hi xs acc of Inl e \<Rightarrow> Inl e | Inr acc' \<Rightarrow> collect ext lo hi ys acc')"
  by (induction xs arbitrary: acc) (auto split: sum.splits option.splits)

lemma collect_skip:
  "ext n sd = Inr x \<Longrightarrow> accept lo hi x = Inr None \<Longrightarrow>
   collect ext lo hi (pre @ (n, sd) # post) acc = collect ext lo hi (pre @ post) acc"
  by (simp add: collect_append split: sum.splits)

lemma set_dict_set: "set (dict_set k v kvs) \<subseteq> insert (k, v) (set kvs)"
  by (induction kvs) (auto split: if_splits)

lemma keys_dict_set: "fst ` set (dict_set k v kvs) = insert k (fst ` set kvs)"
  by (induction kvs) (force split: if_splits)+

lemma distinct_dict_set: "distinct (map fst kvs) \<Longrightarrow> distinct (map fst (dict_set k v kvs))"
  by (induction kvs) (auto simp: keys_dict_set)

lemma length_dict_set: "length kvs \<le> length (dict_set k v kvs)"
  by (induction kvs) auto

lemma collect_distinct:
  "collect ext lo hi sats acc = Inr res \<Longrightarrow> distinct (map fst acc) \<Longrightarrow> distinct (map fst res)"
  by (induction sats arbitrary: acc) (auto simp: distinct_dict_set split: sum.splits option.splits)

lemma collect_keys:
  "collect ext lo hi sats acc = Inr res \<Longrightarrow>
   fst ` set res = fst ` set acc \<union>
     {n. \<exists>sd x v. (n, sd) \<in> set sats \<and> ext n sd = Inr x \<and> accept lo hi x = Inr (Some v)}"
proof (induction sats arbitrary: acc)
  case Nil
  then show ?case by simp
next
  case (Cons a sats)
  obtain n sd where a: "a = (n, sd)" by (cases a)
  show ?case using Cons.prems Cons.IH a
    by (auto simp: keys_dict_set split: sum.splits option.splits)
qed

lemma collect_entries:
  "collect ext lo hi sats acc = Inr res \<Longrightarrow> (n, v, w) \<in> set res \<Longrightarrow>
   (n, v, w) \<in> set acc \<or>
   (w = weight_of n \<and> (\<exists>sd x. (n, sd) \<in> set sats \<and> ext n sd = Inr x \<and> accept lo hi x = Inr (Some v)))"
proof (induction sats arbitrary: acc)
  case Nil
  then show ?case by simp
next
  case (Cons a sats)
  obtain m sd where a: "a = (m, sd)" by (cases a)
  show ?case using Cons.prems Cons.IH a set_dict_set
    by (fastforce split: sum.splits option.splits)
qed

section \<open>The common end of the four routines\<close>

lemma weight_of_pos: "0 < weight_of n"
  by (simp add: weight_of_def satellite_weights_def dict_get_def)

lemma calculate_confidence_spec: "calculate_confidence n var mv = spec_confidence n var mv"
  by (simp add: calculate_confidence_def spec_confidence_def Let_def min.commute max.commute
      mult.commute)

lemma map_snd_sources: "snd \<circ> (\<lambda>(n, v, w). (n, v)) = (\<lambda>(n, v, w). v)"
  by (auto simp: fun_eq_iff)

lemma fuse_contributors_Some:
  assumes "fuse_contributors srcs mv hb mb = Inr (Some r)"
  shows "srcs \<noteq> []"
    and "sum_list (map (\<lambda>(n, v, w). w) srcs) \<noteq> 0"
    and "val r = sum_list (map (\<lambda>(n, v, w). v * w) srcs) / sum_list (map (\<lambda>(n, v, w). w) srcs)"
    and "sources (cross_val r) = map (\<lambda>(n, v, w). (n, v)) srcs"
    and "num_sources (cross_val r) = length srcs"
    and "variance (cross_val r) =
           (if length srcs > 1 then np_var (map (\<lambda>(n, v, w). v) srcs) else 0)"
    and "confidence r = calculate_confidence (length srcs) (variance (cross_val r)) mv"
    and "fused (cross_val r) = val r"
    and "agreement (cross_val r) =
           (if variance (cross_val r) < hb then ''High''
            else if variance (cross_val r) < mb then ''Medium'' else ''Low'')"
  using assms by (auto simp: fuse_contributors_def Let_def split: if_splits)

lemma fuse_ndvi_collect:
  "fuse_ndvi sats = Inr res \<longleftrightarrow>
   (\<exists>srcs. collect (optical_ext ''ndvi'') (-1) 1 sats [] = Inr srcs \<and>
           fuse_contributors srcs 0.04 0.02 0.05 = Inr res)"
  by (simp add: fuse_ndvi_def ndvi_loop_collect split: sum.splits)

lemma fuse_evi_collect:
  "fuse_evi sats = Inr res \<longleftrightarrow>
   (\<exists>srcs. collect (optical_ext ''evi'') (-1) 1 sats [] = Inr srcs \<and>
           fuse_contributors srcs 0.04 0.02 0.05 = Inr res)"
  by (simp add: fuse_evi_def evi_loop_collect split: sum.splits)

lemma fuse_temperature_collect:
  "fuse_temperature sats = Inr res \<longleftrightarrow>
   (\<exists>srcs. collect extract_temperature 0 60 sats [] = Inr srcs \<and>
           fuse_contributors srcs 4 1 3 = Inr res)"
  by (simp add: fuse_temperature_def temp_loop_collect split: sum.splits)

lemma fuse_moisture_collect:
  "fuse_moisture sats = Inr res \<longleftrightarrow>
   (\<exists>srcs. collect moisture_ext 0 100 sats [] = Inr srcs \<and>
           fuse_contributors srcs 100 25 50 = Inr res)"
  by (simp add: fuse_moisture_def moisture_loop_collect split: sum.splits)

lemmas eval_defs = fuse_ndvi_def fuse_evi_def fuse_temperature_def fuse_moisture_def
  extract_index_def extract_temperature_def dict_get_def fuse_contributors_def np_var_def
  calculate_confidence_def weight_of_def satellite_weights_def Let_def

section \<open>Bounds and provenance of the contributions\<close>

lemma collect_from_empty:
  assumes "collect ext lo hi sats [] = Inr srcs" and "(n, v, w) \<in> set srcs"
  shows "w = weight_of n" and "0 < w" and "lo \<le> v" and "v \<le> hi"
    and "\<exists>sd x. (n, sd) \<in> set sats \<and> ext n sd = Inr x \<and> number_of x = Some v \<and> x \<noteq> PNone"
proof -
  from collect_entries [OF assms] obtain sd x where
    w: "w = weight_of n" and m: "(n, sd) \<in> set sats" and e: "ext n sd = Inr x"
    and a: "accept lo hi x = Inr (Some v)"
    by auto
  show "w = weight_of n" by (rule w)
  show "0 < w" by (simp add: w weight_of_pos)
  from a show "lo \<le> v" and "v \<le> hi" by (simp_all add: accept_Some)
  from a have "number_of x = Some v" and "x \<noteq> PNone" by (auto simp: accept_Some)
  with m e show "\<exists>sd x. (n, sd) \<in> set sats \<and> ext n sd = Inr x \<and> number_of x = Some v \<and> x \<noteq> PNone"
    by blast
qed

lemma weights_sum_pos:
  "srcs \<noteq> [] \<Longrightarrow> \<forall>(n, v, w)\<in>set srcs. 0 < (w::real) \<Longrightarrow> 0 < sum_list (map (\<lambda>(n, v, w). w) srcs)"
proof (induction srcs)
  case Nil
  then show ?case by simp
next
  case (Cons a srcs)
  then show ?case by (cases srcs) (auto simp: add_pos_pos)
qed

lemma weighted_sum_lower:
  "\<forall>(n, v, w)\<in>set srcs. lo \<le> v \<and> 0 < (w::real) \<Longrightarrow>
   lo * sum_list (map (\<lambda>(n, v, w). w) srcs) \<le> sum_list (map (\<lambda>(n, v, w). v * w) srcs)"
proof (induction srcs)
  case Nil
  then show ?case by simp
next
  case (Cons a srcs)
  obtain n v w where a: "a = (n, v, w)" by (cases a)
  from Cons.prems a have "lo * w \<le> v * w" by (simp add: mult_right_mono)
  moreover from Cons have
    "lo * sum_list (map (\<lambda>(n, v, w). w) srcs) \<le> sum_list (map (\<lambda>(n, v, w). v * w) srcs)"
    by simp
  ultimately show ?case using a by (simp add: distrib_left add_mono)
qed

lemma weighted_sum_upper:
  "\<forall>(n, v, w)\<in>set srcs. v \<le> hi \<and> 0 < (w::real) \<Longrightarrow>
   sum_list (map (\<lambda>(n, v, w). v * w) srcs) \<le> hi * sum_list (map (\<lambda>(n, v, w). w) srcs)"
proof (induction srcs)
  case Nil
  then show ?case by simp
next
  case (Cons a srcs)
  obtain n v w where a: "a = (n, v, w)" by (cases a)
  from Cons.prems a have "v * w \<le> hi * w" by (simp add: mult_right_mono)
  moreover from Cons have
    "sum_list (map (\<lambda>(n, v, w). v * w) srcs) \<le> hi * sum_list (map (\<lambda>(n, v, w). w) srcs)"
    by simp
  ultimately show ?case using a by (simp add: distrib_left add_mono)
qed

lemma fused_within:
  assumes c: "collect ext lo hi sats [] = Inr srcs"
    and f: "fuse_contributors srcs mv hb mb = Inr (Some r)"
  shows "value_in_range lo hi r"
proof -
  let ?W = "sum_list (map (\<lambda>(n, v, w). w) srcs)"
  let ?S = "sum_list (map (\<lambda>(n, v, w). v * w) srcs)"
  have all: "\<forall>(n, v, w)\<in>set srcs. lo \<le> v \<and> v \<le> hi \<and> 0 < w"
    using collect_from_empty [OF c] by blast
  have ne: "srcs \<noteq> []" using f by (rule fuse_contributors_Some)
  have W: "0 < ?W" using ne all by (intro weights_sum_pos) auto
  have lo: "lo * ?W \<le> ?S" using all by (intro weighted_sum_lower) auto
  have hi: "?S \<le> hi * ?W" using all by (intro weighted_sum_upper) auto
  have v: "val r = ?S / ?W" using f by (rule fuse_contributors_Some)
  show ?thesis
    using W lo hi by (simp add: value_in_range_def v pos_le_divide_eq pos_divide_le_eq)
qed

lemma unclamped:
  assumes c: "collect ext lo hi sats [] = Inr srcs"
    and f: "fuse_contributors srcs mv hb mb = Inr (Some r)"
    and e: "\<And>n sd x. ext n sd = Inr x \<Longrightarrow> x \<noteq> PNone \<Longrightarrow> ext' n sd = Inr x"
  shows "contributions_unclamped ext' lo hi sats r"
proof -
  have s: "sources (cross_val r) = map (\<lambda>(n, v, w). (n, v)) srcs"
    using f by (rule fuse_contributors_Some)
  {
    fix n v assume "(n, v) \<in> set (sources (cross_val r))"
    then obtain w where m: "(n, v, w) \<in> set srcs" by (auto simp: s)
    from collect_from_empty [OF c m] obtain sd x where
      b: "lo \<le> v" "v \<le> hi" and sd: "(n, sd) \<in> set sats" and x: "ext n sd = Inr x"
      and num: "number_of x = Some v" and nn: "x \<noteq> PNone"
      by blast
    from e [OF x nn] have "ext' n sd = Inr x" .
    with b sd num have "lo \<le> v \<and> v \<le> hi \<and>
        (\<exists>(m, sd)\<in>set sats. m = n \<and>
           (case ext' n sd of Inl e \<Rightarrow> False | Inr x \<Rightarrow> number_of x = Some v))"
      by force
  }
  then show ?thesis unfolding contributions_unclamped_def by blast
qed

lemma optical_ext_not_None:
  "optical_ext key n sd = Inr x \<Longrightarrow> x \<noteq> PNone \<Longrightarrow> extract_index key sd = Inr x"
  by (auto simp: optical_ext_def split: if_splits)

lemma moisture_ext_not_None:
  "moisture_ext n sd = Inr x \<Longrightarrow> x \<noteq> PNone \<Longrightarrow> py_get sd ''soil_moisture_estimate'' PNone = Inr x"
  by (auto simp: moisture_ext_def split: if_splits)

lemma out_of_range_None:
  "number_of x = Some v \<Longrightarrow> v < lo \<or> hi < v \<Longrightarrow> accept lo hi x = Inr None"
  by (auto simp: accept_None)

lemma collect_skip_guarded:
  assumes "ext n sd = Inr x \<or> ext n sd = Inr PNone" and "accept lo hi x = Inr None"
  shows "collect ext lo hi (pre @ (n, sd) # post) acc = collect ext lo hi (pre @ post) acc"
  using assms by (auto simp: collect_append split: sum.splits)

lemma fuse_ndvi_skip:
  assumes "extract_index ''ndvi'' sd = Inr x" and "accept (-1) 1 x = Inr None"
  shows "fuse_ndvi (pre @ (n, sd) # post) = fuse_ndvi (pre @ post)"
proof -
  have "optical_ext ''ndvi'' n sd = Inr x \<or> optical_ext ''ndvi'' n sd = Inr PNone"
    using assms(1) by (simp add: optical_ext_def)
  then have "collect (optical_ext ''ndvi'') (-1) 1 (pre @ (n, sd) # post) [] =
      collect (optical_ext ''ndvi'') (-1) 1 (pre @ post) []"
    using assms(2) by (rule collect_skip_guarded)
  then show ?thesis by (simp add: fuse_ndvi_def ndvi_loop_collect)
qed

lemma fuse_evi_skip:
  assumes "extract_index ''evi'' sd = Inr x" and "accept (-1) 1 x = Inr None"
  shows "fuse_evi (pre @ (n, sd) # post) = fuse_evi (pre @ post)"
proof -
  have "optical_ext ''evi'' n sd = Inr x \<or> optical_ext ''evi'' n sd = Inr PNone"
    using assms(1) by (simp add: optical_ext_def)
  then have "collect (optical_ext ''evi'') (-1) 1 (pre @ (n, sd) # post) [] =
      collect (optical_ext ''evi'') (-1) 1 (pre @ post) []"
    using assms(2) by (rule collect_skip_guarded)
  then show ?thesis by (simp add: fuse_evi_def evi_loop_collect)
qed

lemma fuse_temperature_skip:
  assumes "extract_temperature n sd = Inr x" and "accept 0 60 x = Inr None"
  shows "fuse_temperature (pre @ (n, sd) # post) = fuse_temperature (pre @ post)"
proof -
  have "extract_temperature n sd = Inr x \<or> extract_temperature n sd = Inr PNone"
    using assms(1) by simp
  then have "collect extract_temperature 0 60 (pre @ (n, sd) # post) [] =
      collect extract_temperature 0 60 (pre @ post) []"
    using assms(2) by (rule collect_skip_guarded)
  then show ?thesis by (simp add: fuse_temperature_def temp_loop_collect)
qed

lemma fuse_moisture_skip:
  assumes "py_get sd ''soil_moisture_estimate'' PNone = Inr x" and "accept 0 100 x = Inr None"
  shows "fuse_moisture (pre @ (n, sd) # post) = fuse_moisture (pre @ post)"
proof -
  have "moisture_ext n sd = Inr x \<or> moisture_ext n sd = Inr PNone"
    using assms(1) by (simp add: moisture_ext_def)
  then have "collect moisture_ext 0 100 (pre @ (n, sd) # post) [] =
      collect moisture_ext 0 100 (pre @ post) []"
    using assms(2) by (rule collect_skip_guarded)
  then show ?thesis by (simp add: fuse_moisture_def moisture_loop_collect)
qed

lemma temperature_within:
  assumes "fuse_temperature sats = Inr (Some r)"
  shows "value_in_range 0 60 r" and "contributions_unclamped extract_temperature 0 60 sats r"
proof -
  from assms obtain srcs where c: "collect extract_temperature 0 60 sats [] = Inr srcs"
    and f: "fuse_contributors srcs 4 1 3 = Inr (Some r)"
    unfolding fuse_temperature_collect by blast
  show "value_in_range 0 60 r" using c f by (rule fused_within)
  show "contributions_unclamped extract_temperature 0 60 sats r"
    using c f by (rule unclamped)
qed

section \<open>The scenario of the specification, evaluated\<close>

lemma scenario_filter:
  "filter_valid_loop scenario_satellites [] = Inr scenario_satellites"
  by (simp add: scenario_satellites_def dict_get_def)

lemma scenario_ndvi:
  "fuse_ndvi scenario_satellites =
     Inr (Some \<lparr>val = 1729 / 2700, confidence = 637 / 750,
       cross_val = \<lparr>sources = [(''sentinel2'', 0.65), (''landsat8'', 0.63), (''irs'', 0.64)],
         fused = 1729 / 2700, variance = 1 / 15000, agreement = ''High'', num_sources = 3\<rparr>\<rparr>)"
  by (simp add: scenario_satellites_def eval_defs power2_eq_square)

lemma scenario_temperature: "fuse_temperature scenario_satellites = Inr None"
  by (simp add: scenario_satellites_def eval_defs power2_eq_square)

lemma scenario_moisture: "fuse_moisture scenario_satellites = Inr None"
  by (simp add: scenario_satellites_def eval_defs power2_eq_square)

lemma scenario_evi: "fuse_evi scenario_satellites = Inr None"
  by (simp add: scenario_satellites_def eval_defs power2_eq_square)

lemma scenario_nonempty: "scenario_satellites \<noteq> []" "length scenario_satellites = 3"
  "map fst scenario_satellites = [''sentinel2'', ''landsat8'', ''irs'']"
  by (simp_all add: scenario_satellites_def)

section \<open>The filter, the clock and the extraction of the temperature\<close>

lemma filter_excluded:
  "\<forall>(n, sd)\<in>set sats. excluded_entry sd \<Longrightarrow> filter_valid_loop sats acc = Inr acc"
proof (induction sats arbitrary: acc)
  case Nil
  then show ?case by simp
next
  case (Cons a sats)
  obtain n sd where a: "a = (n, sd)" by (cases a)
  with Cons.prems have "excluded_entry sd" by simp
  then have "filter_valid_loop ((n, sd) # sats) acc = filter_valid_loop sats acc"
    by (cases sd) auto
  with Cons a show ?case by simp
qed

lemma store_metric_timestamp:
  "store_metric m x (timestamp_update f rep) = timestamp_update f (store_metric m x rep)"
  by (cases x) simp_all

lemma store_metric_reads:
  "timestamp (store_metric m x rep) = timestamp rep"
  "location (store_metric m x rep) = location rep"
  "data_sources (store_metric m x rep) = data_sources rep"
  by (cases x; simp)+

lemma fuse_valid_timestamp:
  "fuse_valid v (rep\<lparr>timestamp := t\<rparr>) =
     (case fuse_valid v rep of Inl e \<Rightarrow> Inl e | Inr r \<Rightarrow> Inr (r\<lparr>timestamp := t\<rparr>))"
proof -
  have a: "(rep\<lparr>timestamp := t\<rparr>)\<lparr>data_sources := ds\<rparr> = (rep\<lparr>data_sources := ds\<rparr>)\<lparr>timestamp := t\<rparr>"
    for ds by simp
  show ?thesis
    unfolding fuse_valid_def Let_def a store_metric_timestamp
    by (simp split: sum.splits)
qed



lemma extract_temperature_flat:
  assumes "n \<in> set [''landsat8'', ''modis'', ''irs'']" and "map_of sd ''temperature'' = Some s"
    and "\<not> is_dict s"
  shows "extract_temperature n (PDict sd) = Inr s"
proof -
  have g: "dict_get sd ''temperature'' dflt = s" for dflt
    using assms(2) by (simp add: dict_get_def)
  from assms(3) have c: "(case s of PDict td \<Rightarrow> Inr (f td) | _ \<Rightarrow> Inr s) = Inr s"
    for f :: "(string \<times> pyval) list \<Rightarrow> pyval"
    by (cases s) simp_all
  show ?thesis using assms(1) by (auto simp: extract_temperature_def g c)
qed

lemma extract_temperature_nested:
  assumes "map_of sd ''temperature'' = Some (PDict td)"
  shows "extract_temperature ''modis'' (PDict sd) =
     Inr (dict_get td ''land_surface'' (dict_get td ''mean'' PNone))"
proof -
  have g: "dict_get sd ''temperature'' dflt = PDict td" for dflt
    using assms by (simp add: dict_get_def)
  show ?thesis by (simp add: extract_temperature_def g)
qed

section \<open>Variance, count and confidence\<close>

lemma np_var_constant:
  assumes "\<forall>x\<in>set xs. x = v"
  shows "np_var xs = 0"
proof -
  have xs: "xs = replicate (length xs) v"
    using assms by (simp add: replicate_length_same)
  have s: "sum_list (replicate k v) = real k * v" for k
    by (induction k) (simp_all add: algebra_simps)
  have m: "sum_list xs / real (length xs) = v" if "xs \<noteq> []"
  proof -
    have "sum_list xs = real (length xs) * v" by (subst xs) (simp add: s)
    with that show ?thesis by simp
  qed
  show ?thesis
  proof (cases "xs = []")
    case True
    then show ?thesis by (simp add: np_var_def)
  next
    case False
    have "map (\<lambda>x. (x - v)\<^sup>2) xs = replicate (length xs) 0"
      using assms by (intro replicate_eqI) auto
    then show ?thesis by (simp add: np_var_def Let_def m [OF False] sum_list_replicate)
  qed
qed

lemma np_var_nonneg: "0 \<le> np_var xs"
  unfolding np_var_def Let_def
  by (intro divide_nonneg_nonneg sum_list_nonneg) auto

lemma calculate_confidence_mono:
  assumes "n \<le> n'" and "0 \<le> var" and "0 < mv"
  shows "calculate_confidence n var mv \<le> calculate_confidence n' 0 mv"
proof -
  have q: "0 \<le> var / mv" using assms by simp
  have s: "min (real n / 4) 1 \<le> min (real n' / 4) 1"
    using assms(1) by (intro min.mono) simp_all
  have v: "max 0 (1 - var / mv) \<le> max 0 (1 - 0 / mv)"
    using q by simp
  have "min (real n / 4) 1 * 0.6 + max 0 (1 - var / mv) * 0.4 \<le>
      min (real n' / 4) 1 * 0.6 + max 0 (1 - 0 / mv) * 0.4"
    using s v by (intro add_mono mult_right_mono) simp_all
  then have "min (max (min (real n / 4) 1 * 0.6 + max 0 (1 - var / mv) * 0.4) 0) 1 \<le>
      min (max (min (real n' / 4) 1 * 0.6 + max 0 (1 - 0 / mv) * 0.4) 0) 1"
    by (intro min.mono max.mono) simp_all
  then show ?thesis by (simp add: calculate_confidence_def Let_def)
qed

lemma collect_length_mono:
  assumes c: "collect ext lo hi (pre @ post) [] = Inr srcs"
    and c': "collect ext lo hi (pre @ (n, sd) # post) [] = Inr srcs'"
  shows "length srcs \<le> length srcs'"
proof -
  have d: "distinct (map fst srcs)" "distinct (map fst srcs')"
    using collect_distinct [OF c] collect_distinct [OF c'] by simp_all
  have "fst ` set srcs \<subseteq> fst ` set srcs'"
    unfolding collect_keys [OF c] collect_keys [OF c'] by auto
  then have "card (set (map fst srcs)) \<le> card (set (map fst srcs'))"
    by (intro card_mono) auto
  then show ?thesis using distinct_card [OF d(1)] distinct_card [OF d(2)] by simp
qed

lemma confidence_mono:
  assumes c: "collect ext lo hi (pre @ post) [] = Inr srcs"
    and c': "collect ext lo hi (pre @ (n, sd) # post) [] = Inr srcs'"
    and f: "fuse_contributors srcs mv hb mb = Inr (Some r)"
    and f': "fuse_contributors srcs' mv hb mb = Inr (Some r')"
    and same: "\<forall>(m, x)\<in>set (sources (cross_val r')). x = v"
    and mv: "0 < mv"
  shows "confidence r \<le> confidence r'"
proof -
  have s': "sources (cross_val r') = map (\<lambda>(n, v, w). (n, v)) srcs'"
    using f' by (rule fuse_contributors_Some)
  have "\<forall>x\<in>set (map (\<lambda>(n, v, w). v) srcs'). x = v"
    using same unfolding s' by force
  then have "np_var (map (\<lambda>(n, v, w). v) srcs') = 0" by (rule np_var_constant)
  then have v': "variance (cross_val r') = 0"
    by (simp add: fuse_contributors_Some(6) [OF f'])
  have v: "0 \<le> variance (cross_val r)"
    by (simp add: fuse_contributors_Some(6) [OF f] np_var_nonneg)
  have "calculate_confidence (length srcs) (variance (cross_val r)) mv \<le>
      calculate_confidence (length srcs') 0 mv"
    using collect_length_mono [OF c c'] v mv by (rule calculate_confidence_mono)
  then show ?thesis
    by (simp add: fuse_contributors_Some(7) [OF f] fuse_contributors_Some(7) [OF f'] v')
qed

section \<open>What the filter keeps and where a report takes its parts from\<close>

lemma dict_set_fresh: "k \<notin> fst ` set kvs \<Longrightarrow> dict_set k v kvs = kvs @ [(k, v)]"
  by (induction kvs) auto

lemma map_of_dict_set: "map_of (dict_set k v kvs) k' = (if k' = k then Some v else map_of kvs k')"
  by (induction kvs) auto

lemma dict_set_not_Nil: "dict_set k v kvs \<noteq> []"
  by (cases kvs) (auto split: if_splits)

lemma filter_step_excluded:
  "excluded_entry sd \<Longrightarrow> filter_valid_loop ((n, sd) # rest) acc = filter_valid_loop rest acc"
  by (cases sd) auto

lemma filter_step_valid:
  assumes "filter_valid_loop ((n, sd) # rest) acc = Inr res" and "\<not> excluded_entry sd"
  shows "filter_valid_loop rest (dict_set n sd acc) = Inr res"
  using assms by (cases sd) (auto split: if_splits)

lemma filter_valid_loop_char:
  "filter_valid_loop sats acc = Inr res \<Longrightarrow> distinct (map fst acc @ map fst sats) \<Longrightarrow>
   res = acc @ filter (\<lambda>(k, sd). \<not> excluded_entry sd) sats"
proof (induction sats arbitrary: acc)
  case Nil
  then show ?case by simp
next
  case (Cons a sats)
  obtain n sd where a: "a = (n, sd)" by (cases a)
  show ?case
  proof (cases "excluded_entry sd")
    case True
    from Cons.prems(1) have "filter_valid_loop sats acc = Inr res"
      unfolding a filter_step_excluded [OF True] .
    moreover from Cons.prems a have "distinct (map fst acc @ map fst sats)" by simp
    ultimately have "res = acc @ filter (\<lambda>(k, sd). \<not> excluded_entry sd) sats"
      by (rule Cons.IH)
    with True a show ?thesis by simp
  next
    case False
    from Cons.prems a have fresh: "n \<notin> fst ` set acc" by auto
    from Cons.prems(1) [unfolded a] have "filter_valid_loop sats (dict_set n sd acc) = Inr res"
      by (rule filter_step_valid) (rule False)
    then have "filter_valid_loop sats (acc @ [(n, sd)]) = Inr res"
      by (simp add: dict_set_fresh [OF fresh])
    moreover from Cons.prems a have "distinct (map fst (acc @ [(n, sd)]) @ map fst sats)"
      by auto
    ultimately have "res = (acc @ [(n, sd)]) @ filter (\<lambda>(k, sd). \<not> excluded_entry sd) sats"
      by (rule Cons.IH)
    with False a show ?thesis by simp
  qed
qed

lemma filter_valid_loop_drop:
  "\<forall>(k, sd)\<in>set sats. k = n \<longrightarrow> excluded_entry sd \<Longrightarrow>
   filter_valid_loop (filter (\<lambda>(k, sd). k \<noteq> n) sats) acc = filter_valid_loop sats acc"
proof (induction sats arbitrary: acc)
  case Nil
  then show ?case by simp
next
  case (Cons a sats)
  obtain k sd where a: "a = (k, sd)" by (cases a)
  from Cons.prems have rest: "\<forall>(k, sd)\<in>set sats. k = n \<longrightarrow> excluded_entry sd" by simp
  show ?case
  proof (cases "k = n")
    case True
    with Cons.prems a have e: "excluded_entry sd" by simp
    have "filter_valid_loop (filter (\<lambda>(k, sd). k \<noteq> n) (a # sats)) acc =
        filter_valid_loop (filter (\<lambda>(k, sd). k \<noteq> n) sats) acc"
      using a True by simp
    also have "\<dots> = filter_valid_loop sats acc" by (rule Cons.IH [OF rest])
    also have "\<dots> = filter_valid_loop (a # sats) acc"
      unfolding a filter_step_excluded [OF e] ..
    finally show ?thesis .
  next
    case False
    then show ?thesis using a Cons.IH [OF rest]
      by (auto split: sum.splits)
  qed
qed

lemma source_excluded_entries:
  assumes "source_excluded sats n" and "distinct (map fst sats)"
  shows "\<forall>(k, sd)\<in>set sats. k = n \<longrightarrow> excluded_entry sd"
proof -
  {
    fix sd assume "(n, sd) \<in> set sats"
    with assms(2) have "map_of sats n = Some sd" by simp
    with assms(1) have "excluded_entry sd" by (simp add: source_excluded_def)
  }
  then show ?thesis by auto
qed

lemma store_metric_cross_validation:
  "set (cross_validation (store_metric m x rep)) \<subseteq>
     set (cross_validation rep) \<union> (case x of None \<Rightarrow> {} | Some r \<Rightarrow> {(m, cross_val r)})"
  using set_dict_set [of m _ "cross_validation rep"] by (cases x) auto

lemma fuse_valid_parts:
  assumes "fuse_valid valid rep0 = Inr rep"
  shows "\<exists>a b c e. fuse_ndvi valid = Inr a \<and> fuse_temperature valid = Inr b \<and>
      fuse_moisture valid = Inr c \<and> fuse_evi valid = Inr e \<and>
      data_sources rep = map fst valid \<and>
      cross_validation rep =
        cross_validation (store_metric ''evi'' e (store_metric ''soil_moisture'' c
          (store_metric ''temperature'' b (store_metric ''ndvi'' a rep0))))"
proof -
  have d: "store_metric m x (data_sources_update f r) = data_sources_update f (store_metric m x r)"
    for f m x r by (cases x) simp_all
  from assms show ?thesis
    unfolding fuse_valid_def Let_def
    by (auto simp: d split: sum.splits)
qed

lemma sources_keys:
  assumes "collect ext lo hi sats [] = Inr srcs"
    and "fuse_contributors srcs mv hb mb = Inr (Some r)"
  shows "fst ` set (sources (cross_val r)) \<subseteq> fst ` set sats"
proof -
  have "sources (cross_val r) = map (\<lambda>(n, v, w). (n, v)) srcs"
    using assms(2) by (rule fuse_contributors_Some)
  then have "fst ` set (sources (cross_val r)) = fst ` set srcs" by force
  then show ?thesis unfolding collect_keys [OF assms(1)] by force
qed

lemma fuse_sources_keys:
  assumes "fuse_ndvi sats = Inr (Some r) \<or> fuse_temperature sats = Inr (Some r) \<or>
    fuse_moisture sats = Inr (Some r) \<or> fuse_evi sats = Inr (Some r)"
  shows "fst ` set (sources (cross_val r)) \<subseteq> fst ` set sats"
  using assms
  unfolding fuse_ndvi_collect fuse_temperature_collect fuse_moisture_collect fuse_evi_collect
  using sources_keys by blast

lemma fuse_valid_cross_validation:
  assumes "fuse_valid valid rep0 = Inr rep" and "cross_validation rep0 = []"
    and "(m, cv) \<in> set (cross_validation rep)"
  shows "fst ` set (sources cv) \<subseteq> fst ` set valid"
proof -
  from fuse_valid_parts [OF assms(1)] obtain a b c e where
    p: "fuse_ndvi valid = Inr a" "fuse_temperature valid = Inr b"
      "fuse_moisture valid = Inr c" "fuse_evi valid = Inr e"
    and cv: "cross_validation rep =
        cross_validation (store_metric ''evi'' e (store_metric ''soil_moisture'' c
          (store_metric ''temperature'' b (store_metric ''ndvi'' a rep0))))"
    by blast
  from assms(3) have "(m, cv) \<in> set (cross_validation (store_metric ''evi'' e
      (store_metric ''soil_moisture'' c (store_metric ''temperature'' b
        (store_metric ''ndvi'' a rep0)))))"
    by (simp add: cv)
  then have "(\<exists>r. a = Some r \<and> cv = cross_val r) \<or> (\<exists>r. b = Some r \<and> cv = cross_val r) \<or>
      (\<exists>r. c = Some r \<and> cv = cross_val r) \<or> (\<exists>r. e = Some r \<and> cv = cross_val r)"
    using store_metric_cross_validation [of "''evi''" e]
      store_metric_cross_validation [of "''soil_moisture''" c]
      store_metric_cross_validation [of "''temperature''" b]
      store_metric_cross_validation [of "''ndvi''" a rep0] assms(2)
    by (fastforce split: option.splits)
  then obtain r where "cv = cross_val r"
    and "fuse_ndvi valid = Inr (Some r) \<or> fuse_temperature valid = Inr (Some r) \<or>
      fuse_moisture valid = Inr (Some r) \<or> fuse_evi valid = Inr (Some r)"
    using p by auto
  then show ?thesis using fuse_sources_keys by simp
qed

lemma fuse_satellite_data_drop:
  assumes sat: "map_of d ''satellites'' = Some (PDict sats)"
    and ex: "\<forall>(k, sd)\<in>set sats. k = n \<longrightarrow> excluded_entry sd"
  shows "fuse_satellite_data now
      (dict_set ''satellites'' (PDict (filter (\<lambda>(k, sd). k \<noteq> n) sats)) d) =
    fuse_satellite_data now d"
proof -
  let ?sats' = "filter (\<lambda>(k, sd). k \<noteq> n) sats"
  let ?d' = "dict_set ''satellites'' (PDict ?sats') d"
  have 1: "?d' \<noteq> []" by (rule dict_set_not_Nil)
  have 2: "map_of ?d' ''satellites'' = Some (PDict ?sats')" by (simp add: map_of_dict_set)
  have 3: "dict_get ?d' ''location'' dflt = dict_get d ''location'' dflt" for dflt
    by (simp add: dict_get_def map_of_dict_set)
  have 4: "dict_get ?d' ''satellites'' dflt = PDict ?sats'" for dflt
    by (simp add: dict_get_def 2)
  have 5: "dict_get d ''satellites'' dflt = PDict sats" for dflt
    by (simp add: dict_get_def sat)
  have 6: "d \<noteq> []" using sat by auto
  have 7: "filter_valid_satellites (PDict ?sats') = filter_valid_satellites (PDict sats)"
    by (simp add: filter_valid_loop_drop [OF ex])
  show ?thesis
    unfolding fuse_satellite_data_def Let_def 3 4 5 7
    using 1 2 6 sat by simp
qed

lemma fuse_satellite_data_Report:
  assumes sat: "map_of d ''satellites'' = Some (PDict sats)"
    and dist: "distinct (map fst sats)"
    and out: "fuse_satellite_data now d = Inr (Report rep)"
  shows "data_sources rep = map fst (filter (\<lambda>(k, sd). \<not> excluded_entry sd) sats)"
    and "\<forall>(m, cv)\<in>set (cross_validation rep).
      fst ` set (sources cv) \<subseteq> fst ` set (filter (\<lambda>(k, sd). \<not> excluded_entry sd) sats)"
proof -
  let ?valid = "filter (\<lambda>(k, sd). \<not> excluded_entry sd) sats"
  let ?rep0 = "\<lparr>timestamp = now, location = dict_get d ''location'' (PDict []),
      fused_metrics = [], cross_validation = [], confidence_scores = [], data_sources = [],
      consensus_level = ''Unknown'', overall_quality = ''Unknown'', overall_confidence = None,
      status = None, message = None\<rparr>"
  have g: "dict_get d ''satellites'' PNone = PDict sats" by (simp add: dict_get_def sat)
  from out obtain valid where f: "filter_valid_loop sats [] = Inr valid"
    and c: "(valid = [] \<and> rep = ?rep0\<lparr>status := Some ''no_valid_data'',
        message := Some ''No valid satellite data available for fusion''\<rparr>) \<or>
      (valid \<noteq> [] \<and> fuse_valid valid ?rep0 = Inr rep)"
    unfolding fuse_satellite_data_def Let_def g using sat
    by (auto split: sum.splits if_splits)
  have v: "valid = ?valid" using filter_valid_loop_char [OF f] dist by simp
  from c show "data_sources rep = map fst ?valid"
  proof
    assume "valid = [] \<and> rep = ?rep0\<lparr>status := Some ''no_valid_data'',
        message := Some ''No valid satellite data available for fusion''\<rparr>"
    then show ?thesis using v by simp
  next
    assume "valid \<noteq> [] \<and> fuse_valid valid ?rep0 = Inr rep"
    then show ?thesis using fuse_valid_parts [of valid ?rep0 rep] v by auto
  qed
  from c show "\<forall>(m, cv)\<in>set (cross_validation rep). fst ` set (sources cv) \<subseteq> fst ` set ?valid"
  proof
    assume "valid = [] \<and> rep = ?rep0\<lparr>status := Some ''no_valid_data'',
        message := Some ''No valid satellite data available for fusion''\<rparr>"
    then show ?thesis by simp
  next
    assume a: "valid \<noteq> [] \<and> fuse_valid valid ?rep0 = Inr rep"
    have "cross_validation ?rep0 = []" by simp
    with a have "(m, cv) \<in> set (cross_validation rep) \<Longrightarrow>
        fst ` set (sources cv) \<subseteq> fst ` set valid" for m cv
      using fuse_valid_cross_validation [of valid ?rep0 rep m cv] by blast
    then show ?thesis unfolding v by blast
  qed
qed

section \<open>Well-shaped sources never raise\<close>

lemma field_ok_get: "field_ok d k \<Longrightarrow> num_or_none (dict_get d k PNone)"
  by (simp add: field_ok_def dict_get_def split: option.splits)

lemma field_ok_get_default:
  "field_ok d k \<Longrightarrow> num_or_none dflt \<Longrightarrow> num_or_none (dict_get d k dflt)"
  by (simp add: field_ok_def dict_get_def split: option.splits)

lemma well_shaped_index:
  assumes "well_shaped_source n (PDict sd)" and "key = ''ndvi'' \<or> key = ''evi''"
  shows "\<exists>x. extract_index key (PDict sd) = Inr x \<and> num_or_none x"
proof -
  from assms(1) have i: "indices_ok (map_of sd ''indices'')" by simp
  show ?thesis
  proof (cases "map_of sd ''indices''")
    case None
    then show ?thesis by (simp add: extract_index_def dict_get_def)
  next
    case (Some v)
    with i obtain ix where v: "v = PDict ix" and "field_ok ix ''ndvi''" "field_ok ix ''evi''"
      by (cases v) simp_all
    with assms(2) have "num_or_none (dict_get ix key PNone)" by (auto intro: field_ok_get)
    then show ?thesis using Some v by (simp add: extract_index_def dict_get_def)
  qed
qed

lemma well_shaped_temperature:
  assumes "well_shaped_source n (PDict sd)"
  shows "\<exists>x. extract_temperature n (PDict sd) = Inr x \<and> num_or_none x"
proof -
  from assms have t: "temperature_ok n (map_of sd ''temperature'')" by simp
  show ?thesis
  proof (cases "map_of sd ''temperature''")
    case None
    then show ?thesis by (simp add: extract_temperature_def dict_get_def)
  next
    case (Some v)
    show ?thesis
    proof (cases "is_dict v")
      case True
      then obtain td where v: "v = PDict td" by (cases v) simp_all
      with t Some have m: "n = ''modis''" and f: "field_ok td ''land_surface''" "field_ok td ''mean''"
        by simp_all
      from f have "num_or_none (dict_get td ''land_surface'' (dict_get td ''mean'' PNone))"
        by (intro field_ok_get_default field_ok_get)
      then show ?thesis using m extract_temperature_nested [of sd td] Some v by simp
    next
      case False
      with t Some have nn: "num_or_none v" by (cases v) simp_all
      show ?thesis
      proof (cases "n \<in> set [''landsat8'', ''modis'', ''irs'']")
        case True
        then have "extract_temperature n (PDict sd) = Inr v"
          using Some False by (rule extract_temperature_flat)
        with nn show ?thesis by simp
      next
        case False
        then show ?thesis by (simp add: extract_temperature_def)
      qed
    qed
  qed
qed

lemma well_shaped_moisture:
  assumes "well_shaped_source n (PDict sd)"
  shows "\<exists>x. py_get (PDict sd) ''soil_moisture_estimate'' PNone = Inr x \<and> num_or_none x"
  using assms by (simp add: field_ok_get)

lemma accept_total: "num_or_none x \<Longrightarrow> \<exists>res. accept lo hi x = Inr res"
  by (cases x) simp_all

lemma collect_total:
  "\<forall>(n, sd)\<in>set sats. \<exists>x. ext n sd = Inr x \<and> num_or_none x \<Longrightarrow>
   \<exists>srcs. collect ext lo hi sats acc = Inr srcs"
proof (induction sats arbitrary: acc)
  case Nil
  then show ?case by simp
next
  case (Cons a sats)
  obtain n sd where a: "a = (n, sd)" by (cases a)
  with Cons.prems obtain x where x: "ext n sd = Inr x" "num_or_none x" by auto
  from accept_total [OF x(2)] obtain res where r: "accept lo hi x = Inr res" by blast
  from Cons.prems have "\<forall>(n, sd)\<in>set sats. \<exists>x. ext n sd = Inr x \<and> num_or_none x" by simp
  from Cons.IH [OF this] show ?case using a x r by (cases res) simp_all
qed

lemma fuse_contributors_total:
  assumes "collect ext lo hi sats [] = Inr srcs"
  shows "\<exists>res. fuse_contributors srcs mv hb mb = Inr res"
proof (cases "srcs = []")
  case True
  then show ?thesis by (simp add: fuse_contributors_def)
next
  case False
  have "\<forall>(n, v, w)\<in>set srcs. 0 < w" using collect_from_empty(2) [OF assms] by blast
  with False have "0 < sum_list (map (\<lambda>(n, v, w). w) srcs)" by (rule weights_sum_pos)
  then show ?thesis using False by (simp add: fuse_contributors_def Let_def)
qed

lemma well_shaped_step:
  assumes "well_shaped_source n sd"
  shows "excluded_entry sd \<or> (\<exists>dict. sd = PDict dict)"
  using assms by (cases sd) simp_all

lemma filter_total:
  "\<forall>(n, sd)\<in>set sats. well_shaped_source n sd \<Longrightarrow>
   \<exists>valid. filter_valid_loop sats acc = Inr valid"
proof (induction sats arbitrary: acc)
  case Nil
  then show ?case by simp
next
  case (Cons a sats)
  obtain n sd where a: "a = (n, sd)" by (cases a)
  from Cons.prems have rest: "\<forall>(n, sd)\<in>set sats. well_shaped_source n sd" by simp
  from Cons.prems a have "well_shaped_source n sd" by simp
  then have "\<not> truthy sd \<or> (\<exists>dict. sd = PDict dict)" by (cases sd) simp_all
  then show ?case using a Cons.IH [OF rest] by auto
qed

lemma valid_extractions:
  assumes "\<forall>(n, sd)\<in>set valid. well_shaped_source n sd \<and> \<not> excluded_entry sd"
  shows "\<forall>(n, sd)\<in>set valid. \<exists>x. optical_ext ''ndvi'' n sd = Inr x \<and> num_or_none x"
    and "\<forall>(n, sd)\<in>set valid. \<exists>x. optical_ext ''evi'' n sd = Inr x \<and> num_or_none x"
    and "\<forall>(n, sd)\<in>set valid. \<exists>x. extract_temperature n sd = Inr x \<and> num_or_none x"
    and "\<forall>(n, sd)\<in>set valid. \<exists>x. moisture_ext n sd = Inr x \<and> num_or_none x"
proof -
  have d: "\<exists>dict. sd = PDict dict \<and> well_shaped_source n (PDict dict)"
    if "(n, sd) \<in> set valid" for n sd
  proof -
    from assms that have w: "well_shaped_source n sd" and e: "\<not> excluded_entry sd"
      by auto
    from well_shaped_step [OF w] e obtain dict where "sd = PDict dict" by blast
    with w show ?thesis by blast
  qed
  {
    fix n sd key assume m: "(n, sd) \<in> set valid" and k: "key = ''ndvi'' \<or> key = ''evi''"
    from d [OF m] obtain dict where sd: "sd = PDict dict" and w: "well_shaped_source n (PDict dict)"
      by blast
    from well_shaped_index [OF w k] have "\<exists>x. optical_ext key n sd = Inr x \<and> num_or_none x"
      by (auto simp: optical_ext_def sd)
  }
  then show "\<forall>(n, sd)\<in>set valid. \<exists>x. optical_ext ''ndvi'' n sd = Inr x \<and> num_or_none x"
    and "\<forall>(n, sd)\<in>set valid. \<exists>x. optical_ext ''evi'' n sd = Inr x \<and> num_or_none x"
    by blast+
  {
    fix n sd assume m: "(n, sd) \<in> set valid"
    from d [OF m] obtain dict where sd: "sd = PDict dict" and w: "well_shaped_source n (PDict dict)"
      by blast
    from well_shaped_temperature [OF w]
    have "\<exists>x. extract_temperature n sd = Inr x \<and> num_or_none x" by (simp add: sd)
  }
  then show "\<forall>(n, sd)\<in>set valid. \<exists>x. extract_temperature n sd = Inr x \<and> num_or_none x"
    by blast
  {
    fix n sd assume m: "(n, sd) \<in> set valid"
    from d [OF m] obtain dict where sd: "sd = PDict dict" and w: "well_shaped_source n (PDict dict)"
      by blast
    from well_shaped_moisture [OF w]
    have "\<exists>x. moisture_ext n sd = Inr x \<and> num_or_none x"
      by (auto simp: moisture_ext_def sd)
  }
  then show "\<forall>(n, sd)\<in>set valid. \<exists>x. moisture_ext n sd = Inr x \<and> num_or_none x"
    by blast
qed

lemma fuse_total:
  assumes "\<forall>(n, sd)\<in>set valid. well_shaped_source n sd \<and> \<not> excluded_entry sd"
  shows "\<exists>a. fuse_ndvi valid = Inr a" and "\<exists>b. fuse_temperature valid = Inr b"
    and "\<exists>c. fuse_moisture valid = Inr c" and "\<exists>e. fuse_evi valid = Inr e"
proof -
  note x = valid_extractions [OF assms]
  from collect_total [OF x(1)] obtain s1 where
    s1: "collect (optical_ext ''ndvi'') (-1) 1 valid [] = Inr s1" by blast
  from collect_total [OF x(2)] obtain s2 where
    s2: "collect (optical_ext ''evi'') (-1) 1 valid [] = Inr s2" by blast
  from collect_total [OF x(3)] obtain s3 where
    s3: "collect extract_temperature 0 60 valid [] = Inr s3" by blast
  from collect_total [OF x(4)] obtain s4 where
    s4: "collect moisture_ext 0 100 valid [] = Inr s4" by blast
  show "\<exists>a. fuse_ndvi valid = Inr a"
    unfolding fuse_ndvi_collect using s1 fuse_contributors_total [OF s1] by blast
  show "\<exists>e. fuse_evi valid = Inr e"
    unfolding fuse_evi_collect using s2 fuse_contributors_total [OF s2] by blast
  show "\<exists>b. fuse_temperature valid = Inr b"
    unfolding fuse_temperature_collect using s3 fuse_contributors_total [OF s3] by blast
  show "\<exists>c. fuse_moisture valid = Inr c"
    unfolding fuse_moisture_collect using s4 fuse_contributors_total [OF s4] by blast
qed

lemma fuse_valid_total:
  assumes "fuse_ndvi valid = Inr a" and "fuse_temperature valid = Inr b"
    and "fuse_moisture valid = Inr c" and "fuse_evi valid = Inr e"
  shows "\<exists>rep. fuse_valid valid rep0 = Inr rep"
  using assms by (simp add: fuse_valid_def Let_def)

lemma map_of_store_metric:
  "map_of (cross_validation (store_metric m x rep)) k =
     (case x of None \<Rightarrow> map_of (cross_validation rep) k
      | Some r \<Rightarrow> if k = m then Some (cross_val r) else map_of (cross_validation rep) k)"
  by (cases x) (simp_all add: map_of_dict_set)

lemma contributors_keys:
  assumes c: "collect ext lo hi valid [] = Inr srcs"
    and f: "fuse_contributors srcs mv hb mb = Inr res"
  shows "(case res of None \<Rightarrow> False | Some r \<Rightarrow> n \<in> fst ` set (sources (cross_val r))) \<longleftrightarrow>
    (\<exists>sd x v. (n, sd) \<in> set valid \<and> ext n sd = Inr x \<and> accept lo hi x = Inr (Some v))"
proof (cases res)
  case None
  with f have "srcs = []" by (auto simp: fuse_contributors_def Let_def split: if_splits)
  with collect_keys [OF c] None show ?thesis by auto
next
  case (Some r)
  with f have "sources (cross_val r) = map (\<lambda>(n, v, w). (n, v)) srcs"
    by (simp add: fuse_contributors_Some)
  then have "fst ` set (sources (cross_val r)) = fst ` set srcs" by force
  with collect_keys [OF c] Some show ?thesis by auto
qed

lemma accept_reports: "(\<exists>v. accept lo hi x = Inr (Some v)) \<longleftrightarrow> reports_in_range lo hi (Inr x)"
  by (cases x) (simp_all add: reports_in_range_def)

lemma optical_reports:
  "(\<exists>x v. optical_ext key n sd = Inr x \<and> accept lo hi x = Inr (Some v)) \<longleftrightarrow>
   n \<in> set [''sentinel2'', ''landsat8'', ''irs''] \<and> reports_in_range lo hi (extract_index key sd)"
proof (cases "n \<in> set [''sentinel2'', ''landsat8'', ''irs'']")
  case True
  then have "optical_ext key n sd = extract_index key sd" by (simp add: optical_ext_def)
  then show ?thesis using True accept_reports [of lo hi]
    by (cases "extract_index key sd") (auto simp: reports_in_range_def)
next
  case False
  then show ?thesis by (simp add: optical_ext_def)
qed

lemma temperature_reports:
  "(\<exists>x v. extract_temperature n sd = Inr x \<and> accept lo hi x = Inr (Some v)) \<longleftrightarrow>
   reports_in_range lo hi (extract_temperature n sd)"
  using accept_reports [of lo hi]
  by (cases "extract_temperature n sd") (auto simp: reports_in_range_def)

lemma moisture_reports:
  "(\<exists>x v. moisture_ext n sd = Inr x \<and> accept lo hi x = Inr (Some v)) \<longleftrightarrow>
   n \<in> set [''sentinel1'', ''risat''] \<and>
   reports_in_range lo hi (py_get sd ''soil_moisture_estimate'' PNone)"
proof (cases "n \<in> set [''sentinel1'', ''risat'']")
  case True
  then have "moisture_ext n sd = py_get sd ''soil_moisture_estimate'' PNone"
    by (simp add: moisture_ext_def)
  then show ?thesis using True accept_reports [of lo hi]
    by (cases "py_get sd ''soil_moisture_estimate'' PNone") (auto simp: reports_in_range_def)
next
  case False
  then show ?thesis by (simp add: moisture_ext_def)
qed

lemma contributes_char:
  assumes c: "collect ext lo hi valid [] = Inr srcs"
    and f: "fuse_contributors srcs mv hb mb = Inr res"
    and m: "map_of (cross_validation rep) metric = map_option cross_val res"
    and valid: "valid = filter (\<lambda>(k, sd). \<not> excluded_entry sd) sats"
    and dist: "distinct (map fst sats)"
    and mem: "(n, sd) \<in> set sats"
  shows "contributes rep metric n \<longleftrightarrow>
    \<not> excluded_entry sd \<and> (\<exists>x v. ext n sd = Inr x \<and> accept lo hi x = Inr (Some v))"
proof -
  have u: "sd' = sd" if "(n, sd') \<in> set sats" for sd'
    using eq_key_imp_eq_value [OF dist that mem] .
  have "contributes rep metric n \<longleftrightarrow>
      (case res of None \<Rightarrow> False | Some r \<Rightarrow> n \<in> fst ` set (sources (cross_val r)))"
    by (cases res) (simp_all add: contributes_def m)
  also have "\<dots> \<longleftrightarrow>
      (\<exists>sd' x v. (n, sd') \<in> set valid \<and> ext n sd' = Inr x \<and> accept lo hi x = Inr (Some v))"
    using c f by (rule contributors_keys)
  also have "\<dots> \<longleftrightarrow>
      \<not> excluded_entry sd \<and> (\<exists>x v. ext n sd = Inr x \<and> accept lo hi x = Inr (Some v))"
  proof -
    have k: "(n, sd') \<in> set valid \<longleftrightarrow> (n, sd') \<in> set sats \<and> \<not> excluded_entry sd'" for sd'
      by (simp add: valid)
    show ?thesis unfolding k using u mem by blast
  qed
  finally show ?thesis .
qed

section \<open>The contributors and the confidence, read off the input\<close>

lemma sum_squared_deviations:
  "sum_list (map (\<lambda>x. (x - m)\<^sup>2) xs) =
     sum_list (map (\<lambda>x. x * x) xs) - 2 * m * sum_list xs + real (length xs) * m\<^sup>2"
  by (induction xs) (simp_all add: power2_eq_square algebra_simps)

lemma np_var_population: "np_var xs = population_variance xs"
proof (cases "xs = []")
  case True
  then show ?thesis by (simp add: np_var_def population_variance_def)
next
  case False
  define n where "n = real (length xs)"
  define s where "s = sum_list xs"
  define q where "q = sum_list (map (\<lambda>x. x * x) xs)"
  have n: "n \<noteq> 0" using False by (simp add: n_def)
  have "np_var xs = (q - 2 * (s / n) * s + n * (s / n)\<^sup>2) / n"
    by (simp add: np_var_def Let_def sum_squared_deviations n_def s_def q_def)
  also have "\<dots> = q / n - (s / n)\<^sup>2"
    using n by (simp add: field_simps power2_eq_square)
  finally show ?thesis by (simp add: population_variance_def n_def s_def q_def)
qed

lemma accept_reported: "accept lo hi x = Inr res \<Longrightarrow> reported_number lo hi (Inr x) = res"
  by (cases x) (auto simp: reported_number_def)

lemma collect_char:
  "collect ext lo hi sats acc = Inr srcs \<Longrightarrow> distinct (map fst acc @ map fst sats) \<Longrightarrow>
   map (\<lambda>(n, v, w). (n, v)) srcs =
     map (\<lambda>(n, v, w). (n, v)) acc @ spec_contributors ext lo hi sats"
proof (induction sats arbitrary: acc)
  case Nil
  then show ?case by (simp add: spec_contributors_def map_filter_simps)
next
  case (Cons a sats)
  obtain n sd where a: "a = (n, sd)" by (cases a)
  from Cons.prems(1) a obtain x res where x: "ext n sd = Inr x" and r: "accept lo hi x = Inr res"
    by (auto split: sum.splits)
  have rn: "reported_number lo hi (ext n sd) = res"
    using accept_reported [OF r] x by simp
  show ?case
  proof (cases res)
    case None
    with Cons.prems(1) a x r have "collect ext lo hi sats acc = Inr srcs" by simp
    moreover from Cons.prems(2) a have "distinct (map fst acc @ map fst sats)" by simp
    ultimately have "map (\<lambda>(n, v, w). (n, v)) srcs =
        map (\<lambda>(n, v, w). (n, v)) acc @ spec_contributors ext lo hi sats"
      by (rule Cons.IH)
    then show ?thesis using a rn None by (simp add: spec_contributors_def map_filter_simps)
  next
    case (Some v)
    from Cons.prems(2) a have fresh: "n \<notin> fst ` set acc" by auto
    from Cons.prems(1) a x r Some
    have "collect ext lo hi sats (dict_set n (v, weight_of n) acc) = Inr srcs" by simp
    then have "collect ext lo hi sats (acc @ [(n, v, weight_of n)]) = Inr srcs"
      by (simp add: dict_set_fresh [OF fresh])
    moreover from Cons.prems(2) a
    have "distinct (map fst (acc @ [(n, v, weight_of n)]) @ map fst sats)" by auto
    ultimately have "map (\<lambda>(n, v, w). (n, v)) srcs =
        map (\<lambda>(n, v, w). (n, v)) (acc @ [(n, v, weight_of n)]) @
          spec_contributors ext lo hi sats"
      by (rule Cons.IH)
    then show ?thesis using a rn Some by (simp add: spec_contributors_def map_filter_simps)
  qed
qed

lemma fused_as_specified:
  assumes c: "collect ext lo hi sats [] = Inr srcs"
    and d: "distinct (map fst sats)"
    and f: "fuse_contributors srcs mv hb mb = Inr res"
  shows "confidence_as_specified ext lo hi mv sats res"
proof -
  let ?cs = "spec_contributors ext lo hi sats"
  have cs: "map (\<lambda>(n, v, w). (n, v)) srcs = ?cs"
    using collect_char [OF c] d by simp
  then have len: "length srcs = length ?cs" by (metis length_map)
  have vals: "map (\<lambda>(n, v, w). v) srcs = map snd ?cs"
    unfolding cs [symmetric] by (simp add: map_snd_sources)
  show ?thesis
  proof (cases res)
    case None
    with f have "srcs = []" by (auto simp: fuse_contributors_def Let_def split: if_splits)
    with cs have "?cs = []" by simp
    with None show ?thesis
      by (simp add: confidence_as_specified_def spec_metric_confidence_def)
  next
    case (Some r)
    note p = fuse_contributors_Some [OF f [unfolded Some]]
    have ne: "?cs \<noteq> []" using p(1) len by auto
    have var: "variance (cross_val r) = spec_variance (map snd ?cs)"
      using len by (auto simp: p(6) vals spec_variance_def np_var_population)
    have conf: "confidence r = spec_confidence (length ?cs) (spec_variance (map snd ?cs)) mv"
      by (simp add: p(7) var len calculate_confidence_spec)
    show ?thesis
      using Some ne by (simp add: confidence_as_specified_def spec_metric_confidence_def
          conf var p(4) p(5) cs len)
  qed
qed

lemma fuse_valid_scores:
  assumes "fuse_valid valid rep0 = Inr rep"
  shows "\<exists>a b c e. fuse_ndvi valid = Inr a \<and> fuse_temperature valid = Inr b \<and>
      fuse_moisture valid = Inr c \<and> fuse_evi valid = Inr e \<and>
      confidence_scores rep =
        confidence_scores (store_metric ''evi'' e (store_metric ''soil_moisture'' c
          (store_metric ''temperature'' b (store_metric ''ndvi'' a rep0))))"
proof -
  have d: "store_metric m x (data_sources_update f r) = data_sources_update f (store_metric m x r)"
    for f m x r by (cases x) simp_all
  from assms show ?thesis
    unfolding fuse_valid_def Let_def
    by (auto simp: d split: sum.splits)
qed

lemma map_of_store_metric_scores:
  "map_of (confidence_scores (store_metric m x rep)) k =
     (case x of None \<Rightarrow> map_of (confidence_scores rep) k
      | Some r \<Rightarrow> if k = m then Some (confidence r) else map_of (confidence_scores rep) k)"
  by (cases x) (simp_all add: map_of_dict_set)

lemma map_of_stored_scores:
  assumes "confidence_scores rep0 = []"
  shows "map_of (confidence_scores (store_metric ''evi'' e (store_metric ''soil_moisture'' c
          (store_metric ''temperature'' b (store_metric ''ndvi'' a rep0))))) ''ndvi'' =
        map_option confidence a"
    and "map_of (confidence_scores (store_metric ''evi'' e (store_metric ''soil_moisture'' c
          (store_metric ''temperature'' b (store_metric ''ndvi'' a rep0))))) ''evi'' =
        map_option confidence e"
    and "map_of (confidence_scores (store_metric ''evi'' e (store_metric ''soil_moisture'' c
          (store_metric ''temperature'' b (store_metric ''ndvi'' a rep0))))) ''temperature'' =
        map_option confidence b"
    and "map_of (confidence_scores (store_metric ''evi'' e (store_metric ''soil_moisture'' c
          (store_metric ''temperature'' b (store_metric ''ndvi'' a rep0))))) ''soil_moisture'' =
        map_option confidence c"
  by (simp_all add: map_of_store_metric_scores assms split: option.splits)

lemma fuse_as_specified:
  assumes "distinct (map fst sats)"
  shows "fuse_ndvi sats = Inr a \<Longrightarrow>
      confidence_as_specified (optical_ext ''ndvi'') (-1) 1 0.04 sats a"
    and "fuse_evi sats = Inr e \<Longrightarrow>
      confidence_as_specified (optical_ext ''evi'') (-1) 1 0.04 sats e"
    and "fuse_temperature sats = Inr b \<Longrightarrow>
      confidence_as_specified extract_temperature 0 60 4 sats b"
    and "fuse_moisture sats = Inr c \<Longrightarrow>
      confidence_as_specified moisture_ext 0 100 100 sats c"
  unfolding fuse_ndvi_collect fuse_evi_collect fuse_temperature_collect fuse_moisture_collect
  using fused_as_specified [OF _ assms] by blast+

lemma report_scores:
  assumes sat: "map_of d ''satellites'' = Some (PDict sats)"
    and dist: "distinct (map fst sats)"
    and out: "fuse_satellite_data now d = Inr (Report rep)"
  shows "map_of (confidence_scores rep) ''ndvi'' =
      spec_metric_confidence (optical_ext ''ndvi'') (-1) 1 0.04
        (filter (\<lambda>(n, sd). \<not> excluded_entry sd) sats)"
    and "map_of (confidence_scores rep) ''evi'' =
      spec_metric_confidence (optical_ext ''evi'') (-1) 1 0.04
        (filter (\<lambda>(n, sd). \<not> excluded_entry sd) sats)"
    and "map_of (confidence_scores rep) ''temperature'' =
      spec_metric_confidence extract_temperature 0 60 4
        (filter (\<lambda>(n, sd). \<not> excluded_entry sd) sats)"
    and "map_of (confidence_scores rep) ''soil_moisture'' =
      spec_metric_confidence moisture_ext 0 100 100
        (filter (\<lambda>(n, sd). \<not> excluded_entry sd) sats)"
proof -
  let ?valid = "filter (\<lambda>(k, sd). \<not> excluded_entry sd) sats"
  let ?rep0 = "\<lparr>timestamp = now, location = dict_get d ''location'' (PDict []),
      fused_metrics = [], cross_validation = [], confidence_scores = [], data_sources = [],
      consensus_level = ''Unknown'', overall_quality = ''Unknown'', overall_confidence = None,
      status = None, message = None\<rparr>"
  have g: "dict_get d ''satellites'' PNone = PDict sats" by (simp add: dict_get_def sat)
  from out obtain valid where f: "filter_valid_loop sats [] = Inr valid"
    and c: "(valid = [] \<and> rep = ?rep0\<lparr>status := Some ''no_valid_data'',
        message := Some ''No valid satellite data available for fusion''\<rparr>) \<or>
      (valid \<noteq> [] \<and> fuse_valid valid ?rep0 = Inr rep)"
    unfolding fuse_satellite_data_def Let_def g using sat
    by (auto split: sum.splits if_splits)
  have v: "valid = ?valid" using filter_valid_loop_char [OF f] dist by simp
  have dv: "distinct (map fst ?valid)" using dist by (rule distinct_map_filter)
  have "map_of (confidence_scores rep) ''ndvi'' =
      spec_metric_confidence (optical_ext ''ndvi'') (-1) 1 0.04 ?valid \<and>
    map_of (confidence_scores rep) ''evi'' =
      spec_metric_confidence (optical_ext ''evi'') (-1) 1 0.04 ?valid \<and>
    map_of (confidence_scores rep) ''temperature'' =
      spec_metric_confidence extract_temperature 0 60 4 ?valid \<and>
    map_of (confidence_scores rep) ''soil_moisture'' =
      spec_metric_confidence moisture_ext 0 100 100 ?valid"
    using c
  proof
    assume a: "valid = [] \<and> rep = ?rep0\<lparr>status := Some ''no_valid_data'',
        message := Some ''No valid satellite data available for fusion''\<rparr>"
    then have "?valid = []" using v by simp
    then have "spec_metric_confidence ext lo hi mv ?valid = None" for ext lo hi mv
      by (simp add: spec_metric_confidence_def spec_contributors_def map_filter_simps)
    with a show ?thesis by simp
  next
    assume a: "valid \<noteq> [] \<and> fuse_valid valid ?rep0 = Inr rep"
    with fuse_valid_scores [of valid ?rep0 rep] obtain a' b' c' e' where
      p: "fuse_ndvi valid = Inr a'" "fuse_temperature valid = Inr b'"
        "fuse_moisture valid = Inr c'" "fuse_evi valid = Inr e'"
      and s: "confidence_scores rep =
        confidence_scores (store_metric ''evi'' e' (store_metric ''soil_moisture'' c'
          (store_metric ''temperature'' b' (store_metric ''ndvi'' a' ?rep0))))"
      by blast
    have z: "confidence_scores ?rep0 = []" by simp
    note m = map_of_stored_scores [OF z, of e' c' b' a', folded s]
    note q = fuse_as_specified [OF dv [folded v]]
    from q(1) [OF p(1)] q(2) [OF p(4)] q(3) [OF p(2)] q(4) [OF p(3)]
    show ?thesis unfolding m v by (simp add: confidence_as_specified_def)
  qed
  then show "map_of (confidence_scores rep) ''ndvi'' =
      spec_metric_confidence (optical_ext ''ndvi'') (-1) 1 0.04 ?valid"
    and "map_of (confidence_scores rep) ''evi'' =
      spec_metric_confidence (optical_ext ''evi'') (-1) 1 0.04 ?valid"
    and "map_of (confidence_scores rep) ''temperature'' =
      spec_metric_confidence extract_temperature 0 60 4 ?valid"
    and "map_of (confidence_scores rep) ''soil_moisture'' =
      spec_metric_confidence moisture_ext 0 100 100 ?valid"
    by simp_all
qed

lemmas spec_defs = spec_metric_confidence_def spec_contributors_def reported_number_def
  spec_variance_def population_variance_def spec_confidence_def optical_ext_def moisture_ext_def
  extract_index_def extract_temperature_def dict_get_def map_filter_simps Let_def
  power2_eq_square

section \<open>C1: the confidence of a fused metric\<close>

text \<open>
  C1. For every fused metric the reported confidence is
  \<open>0.6 * min (count / 4) 1 + 0.4 * max 0 (1 - variance / max_variance)\<close>, clamped to
  \<open>[0, 1]\<close>, where the count is the number of the contributors of the input (the eligible
  sources whose value is present and in range), the variance is the population variance
  of their values (0 for fewer than two), and the maximal variance is 0.04 for NDVI and
  EVI, 4 for the temperature and 100 for the soil moisture. This holds of what each of
  the four routines returns for a mapping, and of the confidence scores in the report
  of the engine, where the mapping is the filtered one; a metric without contributors
  has no confidence.
\<close>

theorem confidence_formula:
  "(distinct (map fst sats) \<longrightarrow>
      (\<forall>res. fuse_ndvi sats = Inr res \<longrightarrow>
         confidence_as_specified (optical_ext ''ndvi'') (-1) 1 0.04 sats res) \<and>
      (\<forall>res. fuse_evi sats = Inr res \<longrightarrow>
         confidence_as_specified (optical_ext ''evi'') (-1) 1 0.04 sats res) \<and>
      (\<forall>res. fuse_temperature sats = Inr res \<longrightarrow>
         confidence_as_specified extract_temperature 0 60 4 sats res) \<and>
      (\<forall>res. fuse_moisture sats = Inr res \<longrightarrow>
         confidence_as_specified moisture_ext 0 100 100 sats res)) \<and>
   (\<forall>rep. map_of d ''satellites'' = Some (PDict sats) \<longrightarrow> distinct (map fst sats) \<longrightarrow>
      fuse_satellite_data now d = Inr (Report rep) \<longrightarrow>
      map_of (confidence_scores rep) ''ndvi'' =
        spec_metric_confidence (optical_ext ''ndvi'') (-1) 1 0.04
          (filter (\<lambda>(n, sd). \<not> excluded_entry sd) sats) \<and>
      map_of (confidence_scores rep) ''evi'' =
        spec_metric_confidence (optical_ext ''evi'') (-1) 1 0.04
          (filter (\<lambda>(n, sd). \<not> excluded_entry sd) sats) \<and>
      map_of (confidence_scores rep) ''temperature'' =
        spec_metric_confidence extract_temperature 0 60 4
          (filter (\<lambda>(n, sd). \<not> excluded_entry sd) sats) \<and>
      map_of (confidence_scores rep) ''soil_moisture'' =
        spec_metric_confidence moisture_ext 0 100 100
          (filter (\<lambda>(n, sd). \<not> excluded_entry sd) sats))"
proof (intro conjI allI impI)
  fix res assume "distinct (map fst sats)" "fuse_ndvi sats = Inr res"
  then show "confidence_as_specified (optical_ext ''ndvi'') (-1) 1 0.04 sats res"
    by (rule fuse_as_specified)
next
  fix res assume "distinct (map fst sats)" "fuse_evi sats = Inr res"
  then show "confidence_as_specified (optical_ext ''evi'') (-1) 1 0.04 sats res"
    by (rule fuse_as_specified)
next
  fix res assume "distinct (map fst sats)" "fuse_temperature sats = Inr res"
  then show "confidence_as_specified extract_temperature 0 60 4 sats res"
    by (rule fuse_as_specified)
next
  fix res assume "distinct (map fst sats)" "fuse_moisture sats = Inr res"
  then show "confidence_as_specified moisture_ext 0 100 100 sats res"
    by (rule fuse_as_specified)
next
  fix rep
  assume a: "map_of d ''satellites'' = Some (PDict sats)" "distinct (map fst sats)"
    "fuse_satellite_data now d = Inr (Report rep)"
  show "map_of (confidence_scores rep) ''ndvi'' =
      spec_metric_confidence (optical_ext ''ndvi'') (-1) 1 0.04
        (filter (\<lambda>(n, sd). \<not> excluded_entry sd) sats)"
    using a by (rule report_scores)
  show "map_of (confidence_scores rep) ''evi'' =
      spec_metric_confidence (optical_ext ''evi'') (-1) 1 0.04
        (filter (\<lambda>(n, sd). \<not> excluded_entry sd) sats)"
    using a by (rule report_scores)
  show "map_of (confidence_scores rep) ''temperature'' =
      spec_metric_confidence extract_temperature 0 60 4
        (filter (\<lambda>(n, sd). \<not> excluded_entry sd) sats)"
    using a by (rule report_scores)
  show "map_of (confidence_scores rep) ''soil_moisture'' =
      spec_metric_confidence moisture_ext 0 100 100
        (filter (\<lambda>(n, sd). \<not> excluded_entry sd) sats)"
    using a by (rule report_scores)
qed

theorem confidence_formula_witness:
  "distinct (map fst test_satellites) \<and>
   (\<exists>r. fuse_ndvi test_satellites = Inr (Some r) \<and> confidence r = 637 / 750 \<and>
      sources (cross_val r) = [(''sentinel2'', 0.65), (''landsat8'', 0.63), (''irs'', 0.64)]) \<and>
   (\<exists>r. fuse_evi test_satellites = Inr (Some r) \<and> confidence r = 637 / 750) \<and>
   (\<exists>r. fuse_temperature test_satellites = Inr (Some r) \<and> confidence r = 11 / 20) \<and>
   (\<exists>r. fuse_moisture test_satellites = Inr (Some r) \<and> confidence r = 11 / 20) \<and>
   (\<exists>rep. fuse_satellite_data ''2026-11-03T12:00:00'' test_input = Inr (Report rep) \<and>
      map_of (confidence_scores rep) ''ndvi'' = Some (637 / 750) \<and>
      map_of (confidence_scores rep) ''evi'' = Some (637 / 750) \<and>
      map_of (confidence_scores rep) ''temperature'' = Some (11 / 20) \<and>
      map_of (confidence_scores rep) ''soil_moisture'' = Some (11 / 20))"
proof -
  have d: "distinct (map fst test_satellites)" by (simp add: test_satellites_def)
  have s1: "spec_metric_confidence (optical_ext ''ndvi'') (-1) 1 0.04 test_satellites =
      Some (637 / 750)"
    and c1: "spec_contributors (optical_ext ''ndvi'') (-1) 1 test_satellites =
      [(''sentinel2'', 0.65), (''landsat8'', 0.63), (''irs'', 0.64)]"
    by (simp_all add: test_satellites_def spec_defs)
  have s2: "spec_metric_confidence (optical_ext ''evi'') (-1) 1 0.04 test_satellites =
      Some (637 / 750)"
    by (simp add: test_satellites_def spec_defs)
  have s3: "spec_metric_confidence extract_temperature 0 60 4 test_satellites = Some (11 / 20)"
    by (simp add: test_satellites_def spec_defs)
  have s4: "spec_metric_confidence moisture_ext 0 100 100 test_satellites = Some (11 / 20)"
    by (simp add: test_satellites_def spec_defs)
  obtain r1 where h1: "fuse_ndvi test_satellites = Inr (Some r1)"
    by (simp add: test_satellites_def eval_defs)
  obtain r2 where h2: "fuse_evi test_satellites = Inr (Some r2)"
    by (simp add: test_satellites_def eval_defs)
  obtain r3 where h3: "fuse_temperature test_satellites = Inr (Some r3)"
    by (simp add: test_satellites_def eval_defs)
  obtain r4 where h4: "fuse_moisture test_satellites = Inr (Some r4)"
    by (simp add: test_satellites_def eval_defs)
  obtain rep where
    out: "fuse_satellite_data ''2026-11-03T12:00:00'' test_input = Inr (Report rep)"
    by (simp add: test_input_def test_satellites_def fuse_satellite_data_def
        fuse_valid_def eval_defs calculate_overall_confidence_def
        calculate_consensus_level_def determine_quality_def power2_eq_square)
  have m: "map_of test_input ''satellites'' = Some (PDict test_satellites)"
    by (simp add: test_input_def)
  have v: "filter (\<lambda>(n, sd). \<not> excluded_entry sd) test_satellites = test_satellites"
    by (simp add: test_satellites_def dict_get_def)
  note t = confidence_formula [of test_satellites test_input "''2026-11-03T12:00:00''"]
  note a = t [THEN conjunct1, THEN mp, OF d]
  have a1: "confidence_as_specified (optical_ext ''ndvi'') (-1) 1 0.04 test_satellites (Some r1)"
    by (rule a [THEN conjunct1, THEN spec, THEN mp, OF h1])
  have a2: "confidence_as_specified (optical_ext ''evi'') (-1) 1 0.04 test_satellites (Some r2)"
    by (rule a [THEN conjunct2, THEN conjunct1, THEN spec, THEN mp, OF h2])
  have a3: "confidence_as_specified extract_temperature 0 60 4 test_satellites (Some r3)"
    by (rule a [THEN conjunct2, THEN conjunct2, THEN conjunct1, THEN spec, THEN mp, OF h3])
  have a4: "confidence_as_specified moisture_ext 0 100 100 test_satellites (Some r4)"
    by (rule a [THEN conjunct2, THEN conjunct2, THEN conjunct2, THEN spec, THEN mp, OF h4])
  have b1: "confidence r1 = 637 / 750"
    "sources (cross_val r1) = [(''sentinel2'', 0.65), (''landsat8'', 0.63), (''irs'', 0.64)]"
    using a1 unfolding confidence_as_specified_def s1 c1 by simp_all
  have b2: "confidence r2 = 637 / 750" using a2 unfolding confidence_as_specified_def s2 by simp
  have b3: "confidence r3 = 11 / 20" using a3 unfolding confidence_as_specified_def s3 by simp
  have b4: "confidence r4 = 11 / 20" using a4 unfolding confidence_as_specified_def s4 by simp
  from t [THEN conjunct2, THEN spec, THEN mp, THEN mp, THEN mp, OF m d out]
  have b5: "map_of (confidence_scores rep) ''ndvi'' = Some (637 / 750) \<and>
      map_of (confidence_scores rep) ''evi'' = Some (637 / 750) \<and>
      map_of (confidence_scores rep) ''temperature'' = Some (11 / 20) \<and>
      map_of (confidence_scores rep) ''soil_moisture'' = Some (11 / 20)"
    unfolding v s1 s2 s3 s4 .
  from d h1 b1 h2 b2 h3 b3 h4 b4 out b5 show ?thesis by blast
qed

section \<open>C2: fused values stay in the valid range\<close>

text \<open>
  C2. For every metric the fused value lies within the valid range of the metric
  (\<open>[-1, 1]\<close> for NDVI and EVI, \<open>[0, 60]\<close> for the temperature, \<open>[0, 100]\<close> for the soil
  moisture), since every contribution does. A contribution is the number the source
  reported, never a clamped one; a source whose number is outside the range is rejected:
  the routine returns what it returns without that source.
\<close>

theorem fused_value_in_range:
  "(\<forall>r. fuse_ndvi sats = Inr (Some r) \<longrightarrow>
      value_in_range (-1) 1 r \<and>
      contributions_unclamped (\<lambda>n. extract_index ''ndvi'') (-1) 1 sats r) \<and>
   (\<forall>r. fuse_evi sats = Inr (Some r) \<longrightarrow>
      value_in_range (-1) 1 r \<and>
      contributions_unclamped (\<lambda>n. extract_index ''evi'') (-1) 1 sats r) \<and>
   (\<forall>r. fuse_temperature sats = Inr (Some r) \<longrightarrow>
      value_in_range 0 60 r \<and> contributions_unclamped extract_temperature 0 60 sats r) \<and>
   (\<forall>r. fuse_moisture sats = Inr (Some r) \<longrightarrow>
      value_in_range 0 100 r \<and>
      contributions_unclamped (\<lambda>n sd. py_get sd ''soil_moisture_estimate'' PNone) 0 100 sats r) \<and>
   (\<forall>x v. extract_index ''ndvi'' sd = Inr x \<longrightarrow> number_of x = Some v \<longrightarrow> v < -1 \<or> 1 < v \<longrightarrow>
      fuse_ndvi (pre @ (n, sd) # post) = fuse_ndvi (pre @ post)) \<and>
   (\<forall>x v. extract_index ''evi'' sd = Inr x \<longrightarrow> number_of x = Some v \<longrightarrow> v < -1 \<or> 1 < v \<longrightarrow>
      fuse_evi (pre @ (n, sd) # post) = fuse_evi (pre @ post)) \<and>
   (\<forall>x v. py_get sd ''soil_moisture_estimate'' PNone = Inr x \<longrightarrow> number_of x = Some v \<longrightarrow>
      v < 0 \<or> 100 < v \<longrightarrow>
      fuse_moisture (pre @ (n, sd) # post) = fuse_moisture (pre @ post))"
proof (intro conjI allI impI)
  fix r assume h: "fuse_ndvi sats = Inr (Some r)"
  then obtain srcs where c: "collect (optical_ext ''ndvi'') (-1) 1 sats [] = Inr srcs"
    and f: "fuse_contributors srcs 0.04 0.02 0.05 = Inr (Some r)"
    unfolding fuse_ndvi_collect by blast
  show "value_in_range (-1) 1 r" using c f by (rule fused_within)
  show "contributions_unclamped (\<lambda>n. extract_index ''ndvi'') (-1) 1 sats r"
    using c f by (rule unclamped) (rule optical_ext_not_None)
next
  fix r assume h: "fuse_evi sats = Inr (Some r)"
  then obtain srcs where c: "collect (optical_ext ''evi'') (-1) 1 sats [] = Inr srcs"
    and f: "fuse_contributors srcs 0.04 0.02 0.05 = Inr (Some r)"
    unfolding fuse_evi_collect by blast
  show "value_in_range (-1) 1 r" using c f by (rule fused_within)
  show "contributions_unclamped (\<lambda>n. extract_index ''evi'') (-1) 1 sats r"
    using c f by (rule unclamped) (rule optical_ext_not_None)
next
  fix r assume h: "fuse_temperature sats = Inr (Some r)"
  then show "value_in_range 0 60 r"
    and "contributions_unclamped extract_temperature 0 60 sats r"
    by (rule temperature_within)+
next
  fix r assume h: "fuse_moisture sats = Inr (Some r)"
  then obtain srcs where c: "collect moisture_ext 0 100 sats [] = Inr srcs"
    and f: "fuse_contributors srcs 100 25 50 = Inr (Some r)"
    unfolding fuse_moisture_collect by blast
  show "value_in_range 0 100 r" using c f by (rule fused_within)
  show "contributions_unclamped (\<lambda>n sd. py_get sd ''soil_moisture_estimate'' PNone) 0 100 sats r"
    using c f by (rule unclamped) (rule moisture_ext_not_None)
next
  fix x v assume "extract_index ''ndvi'' sd = Inr x" "number_of x = Some v" "v < -1 \<or> 1 < v"
  then show "fuse_ndvi (pre @ (n, sd) # post) = fuse_ndvi (pre @ post)"
    by (intro fuse_ndvi_skip out_of_range_None)
next
  fix x v assume "extract_index ''evi'' sd = Inr x" "number_of x = Some v" "v < -1 \<or> 1 < v"
  then show "fuse_evi (pre @ (n, sd) # post) = fuse_evi (pre @ post)"
    by (intro fuse_evi_skip out_of_range_None)
next
  fix x v assume "py_get sd ''soil_moisture_estimate'' PNone = Inr x" "number_of x = Some v"
    "v < 0 \<or> 100 < v"
  then show "fuse_moisture (pre @ (n, sd) # post) = fuse_moisture (pre @ post)"
    by (intro fuse_moisture_skip out_of_range_None)
qed

theorem fused_value_in_range_witness:
  "(\<exists>r. fuse_ndvi test_satellites = Inr (Some r) \<and> value_in_range (-1) 1 r \<and>
        contributions_unclamped (\<lambda>n. extract_index ''ndvi'') (-1) 1 test_satellites r) \<and>
   (\<exists>r. fuse_evi test_satellites = Inr (Some r) \<and> value_in_range (-1) 1 r \<and>
        contributions_unclamped (\<lambda>n. extract_index ''evi'') (-1) 1 test_satellites r) \<and>
   (\<exists>r. fuse_temperature test_satellites = Inr (Some r) \<and> value_in_range 0 60 r \<and>
        contributions_unclamped extract_temperature 0 60 test_satellites r) \<and>
   (\<exists>r. fuse_moisture test_satellites = Inr (Some r) \<and> value_in_range 0 100 r \<and>
        contributions_unclamped (\<lambda>n sd. py_get sd ''soil_moisture_estimate'' PNone) 0 100
          test_satellites r) \<and>
   fuse_ndvi (test_satellites @ (''landsat8'', out_of_range_source) # []) =
     fuse_ndvi (test_satellites @ []) \<and>
   fuse_evi (test_satellites @ (''landsat8'', out_of_range_source) # []) =
     fuse_evi (test_satellites @ []) \<and>
   fuse_moisture (test_satellites @ (''risat'', out_of_range_source) # []) =
     fuse_moisture (test_satellites @ [])"
proof -
  obtain r1 where h1: "fuse_ndvi test_satellites = Inr (Some r1)"
    by (simp add: test_satellites_def eval_defs)
  obtain r2 where h2: "fuse_evi test_satellites = Inr (Some r2)"
    by (simp add: test_satellites_def eval_defs)
  obtain r3 where h3: "fuse_temperature test_satellites = Inr (Some r3)"
    by (simp add: test_satellites_def eval_defs)
  obtain r4 where h4: "fuse_moisture test_satellites = Inr (Some r4)"
    by (simp add: test_satellites_def eval_defs)
  have n: "extract_index ''ndvi'' out_of_range_source = Inr (PNum 1.5)"
    "number_of (PNum 1.5) = Some 1.5" "(1.5::real) < -1 \<or> 1 < (1.5::real)"
    by (simp_all add: out_of_range_source_def extract_index_def dict_get_def)
  have e: "extract_index ''evi'' out_of_range_source = Inr (PNum (-2))"
    "number_of (PNum (-2)) = Some (-2)" "(-2::real) < -1 \<or> 1 < (-2::real)"
    by (simp_all add: out_of_range_source_def extract_index_def dict_get_def)
  have m: "py_get out_of_range_source ''soil_moisture_estimate'' PNone = Inr (PNum 120)"
    "number_of (PNum 120) = Some 120" "(120::real) < 0 \<or> 100 < (120::real)"
    by (simp_all add: out_of_range_source_def dict_get_def)
  note a = fused_value_in_range [of test_satellites out_of_range_source test_satellites
      "''landsat8''" "[]"]
  note b = fused_value_in_range [of test_satellites out_of_range_source test_satellites
      "''risat''" "[]"]
  note r = conjunct2 [THEN conjunct2, THEN conjunct2, THEN conjunct2]
  have c1: "value_in_range (-1) 1 r1 \<and>
      contributions_unclamped (\<lambda>n. extract_index ''ndvi'') (-1) 1 test_satellites r1"
    by (rule a [THEN conjunct1, rule_format, OF h1])
  have c2: "value_in_range (-1) 1 r2 \<and>
      contributions_unclamped (\<lambda>n. extract_index ''evi'') (-1) 1 test_satellites r2"
    by (rule a [THEN conjunct2, THEN conjunct1, rule_format, OF h2])
  have c3: "value_in_range 0 60 r3 \<and>
      contributions_unclamped extract_temperature 0 60 test_satellites r3"
    by (rule a [THEN conjunct2, THEN conjunct2, THEN conjunct1, rule_format, OF h3])
  have c4: "value_in_range 0 100 r4 \<and>
      contributions_unclamped (\<lambda>n sd. py_get sd ''soil_moisture_estimate'' PNone) 0 100
        test_satellites r4"
    by (rule a [THEN conjunct2, THEN conjunct2, THEN conjunct2, THEN conjunct1, rule_format,
          OF h4])
  have c5: "fuse_ndvi (test_satellites @ (''landsat8'', out_of_range_source) # []) =
      fuse_ndvi (test_satellites @ [])"
    by (rule a [THEN r, THEN conjunct1, rule_format, OF n])
  have c6: "fuse_evi (test_satellites @ (''landsat8'', out_of_range_source) # []) =
      fuse_evi (test_satellites @ [])"
    by (rule a [THEN r, THEN conjunct2, THEN conjunct1, rule_format, OF e])
  have c7: "fuse_moisture (test_satellites @ (''risat'', out_of_range_source) # []) =
      fuse_moisture (test_satellites @ [])"
    by (rule b [THEN r, THEN conjunct2, THEN conjunct2, rule_format, OF m])
  from h1 c1 h2 c2 h3 c3 h4 c4 c5 c6 c7 show ?thesis by blast
qed

section \<open>C3: defects of a single source\<close>

text \<open>
  C3, as the specification states it, fails for a value of an unexpected shape: a
  string where a number is expected raises \<^verbatim>\<open>TypeError\<close> and ends the whole fusion.
\<close>

theorem malformed_value_counterexample:
  "fuse_satellite_data ''2026-11-03T12:00:00'' malformed_input = Inl TypeError"
  by (simp add: malformed_input_def fuse_satellite_data_def fuse_valid_def eval_defs)

text \<open>
  C3, amended. For every input mapping whose per-source metric values are numbers or
  missing, fusion raises no exception and returns a report; a source of the mapping is a
  contributor of a metric exactly when the filter keeps it, it is eligible for the metric
  and its value for that metric is a number within the range of the metric. So a source
  whose value for a metric is missing or out of range is left out of that metric only,
  and contributes to its other metrics.
\<close>

theorem missing_or_out_of_range_tolerated:
  assumes sat: "map_of d ''satellites'' = Some (PDict sats)"
    and dist: "distinct (map fst sats)"
    and ws: "\<forall>(n, sd)\<in>set sats. well_shaped_source n sd"
  shows "\<exists>rep. fuse_satellite_data now d = Inr (Report rep) \<and>
    (\<forall>(n, sd)\<in>set sats.
       (contributes rep ''ndvi'' n \<longleftrightarrow>
          \<not> excluded_entry sd \<and> n \<in> set [''sentinel2'', ''landsat8'', ''irs''] \<and>
          reports_in_range (-1) 1 (extract_index ''ndvi'' sd)) \<and>
       (contributes rep ''evi'' n \<longleftrightarrow>
          \<not> excluded_entry sd \<and> n \<in> set [''sentinel2'', ''landsat8'', ''irs''] \<and>
          reports_in_range (-1) 1 (extract_index ''evi'' sd)) \<and>
       (contributes rep ''temperature'' n \<longleftrightarrow>
          \<not> excluded_entry sd \<and> reports_in_range 0 60 (extract_temperature n sd)) \<and>
       (contributes rep ''soil_moisture'' n \<longleftrightarrow>
          \<not> excluded_entry sd \<and> n \<in> set [''sentinel1'', ''risat''] \<and>
          reports_in_range 0 100 (py_get sd ''soil_moisture_estimate'' PNone)))"
proof -
  let ?valid = "filter (\<lambda>(k, sd). \<not> excluded_entry sd) sats"
  let ?rep0 = "\<lparr>timestamp = now, location = dict_get d ''location'' (PDict []),
      fused_metrics = [], cross_validation = [], confidence_scores = [], data_sources = [],
      consensus_level = ''Unknown'', overall_quality = ''Unknown'', overall_confidence = None,
      status = None, message = None\<rparr>"
  have g: "dict_get d ''satellites'' PNone = PDict sats" by (simp add: dict_get_def sat)
  have ne: "d \<noteq> []" using sat by auto
  from filter_total [OF ws] obtain valid where fl: "filter_valid_loop sats [] = Inr valid"
    by blast
  have v: "valid = ?valid" using filter_valid_loop_char [OF fl] dist by simp
  have vw: "\<forall>(n, sd)\<in>set valid. well_shaped_source n sd \<and> \<not> excluded_entry sd"
    unfolding v using ws by auto
  show ?thesis
  proof (cases "valid = []")
    case True
    have out: "fuse_satellite_data now d =
        Inr (Report (?rep0\<lparr>status := Some ''no_valid_data'',
          message := Some ''No valid satellite data available for fusion''\<rparr>))"
      unfolding fuse_satellite_data_def Let_def g using sat ne fl True by simp
    have ex: "excluded_entry sd" if "(n, sd) \<in> set sats" for n sd
    proof (rule ccontr)
      assume "\<not> excluded_entry sd"
      with that have "(n, sd) \<in> set ?valid" by simp
      with True v show False by simp
    qed
    let ?r = "?rep0\<lparr>status := Some ''no_valid_data'',
          message := Some ''No valid satellite data available for fusion''\<rparr>"
    have c: "\<not> contributes ?r metric n" for metric n by (simp add: contributes_def)
    show ?thesis
    proof (intro exI conjI ballI)
      show "fuse_satellite_data now d = Inr (Report ?r)" by (rule out)
    next
      fix p assume p: "p \<in> set sats"
      obtain n sd where q: "p = (n, sd)" by (cases p)
      with p have "excluded_entry sd" by (simp add: ex)
      then show "case p of (n, sd) \<Rightarrow>
       (contributes ?r ''ndvi'' n \<longleftrightarrow>
          \<not> excluded_entry sd \<and> n \<in> set [''sentinel2'', ''landsat8'', ''irs''] \<and>
          reports_in_range (-1) 1 (extract_index ''ndvi'' sd)) \<and>
       (contributes ?r ''evi'' n \<longleftrightarrow>
          \<not> excluded_entry sd \<and> n \<in> set [''sentinel2'', ''landsat8'', ''irs''] \<and>
          reports_in_range (-1) 1 (extract_index ''evi'' sd)) \<and>
       (contributes ?r ''temperature'' n \<longleftrightarrow>
          \<not> excluded_entry sd \<and> reports_in_range 0 60 (extract_temperature n sd)) \<and>
       (contributes ?r ''soil_moisture'' n \<longleftrightarrow>
          \<not> excluded_entry sd \<and> n \<in> set [''sentinel1'', ''risat''] \<and>
          reports_in_range 0 100 (py_get sd ''soil_moisture_estimate'' PNone))"
        unfolding q prod.case using c by blast
    qed
  next
    case False
    from fuse_total [OF vw] obtain a b c e where
      p: "fuse_ndvi valid = Inr a" "fuse_temperature valid = Inr b"
        "fuse_moisture valid = Inr c" "fuse_evi valid = Inr e"
      by blast
    from fuse_valid_total [OF p] obtain rep where fv: "fuse_valid valid ?rep0 = Inr rep"
      by blast
    have out: "fuse_satellite_data now d = Inr (Report rep)"
      unfolding fuse_satellite_data_def Let_def g using sat ne fl False fv by simp
    from fuse_valid_parts [OF fv] p have cv: "cross_validation rep =
        cross_validation (store_metric ''evi'' e (store_metric ''soil_moisture'' c
          (store_metric ''temperature'' b (store_metric ''ndvi'' a ?rep0))))"
      by simp
    have m: "map_of (cross_validation rep) ''ndvi'' = map_option cross_val a"
      "map_of (cross_validation rep) ''evi'' = map_option cross_val e"
      "map_of (cross_validation rep) ''temperature'' = map_option cross_val b"
      "map_of (cross_validation rep) ''soil_moisture'' = map_option cross_val c"
      unfolding cv by (simp_all add: map_of_store_metric split: option.splits)
    from p(1) obtain s1 where s1: "collect (optical_ext ''ndvi'') (-1) 1 valid [] = Inr s1"
      "fuse_contributors s1 0.04 0.02 0.05 = Inr a"
      unfolding fuse_ndvi_collect by blast
    from p(4) obtain s2 where s2: "collect (optical_ext ''evi'') (-1) 1 valid [] = Inr s2"
      "fuse_contributors s2 0.04 0.02 0.05 = Inr e"
      unfolding fuse_evi_collect by blast
    from p(2) obtain s3 where s3: "collect extract_temperature 0 60 valid [] = Inr s3"
      "fuse_contributors s3 4 1 3 = Inr b"
      unfolding fuse_temperature_collect by blast
    from p(3) obtain s4 where s4: "collect moisture_ext 0 100 valid [] = Inr s4"
      "fuse_contributors s4 100 25 50 = Inr c"
      unfolding fuse_moisture_collect by blast
    show ?thesis
    proof (intro exI conjI ballI)
      show "fuse_satellite_data now d = Inr (Report rep)" by (rule out)
    next
      fix p assume p: "p \<in> set sats"
      obtain n sd where q: "p = (n, sd)" by (cases p)
      from p q have mem: "(n, sd) \<in> set sats" by simp
      have h1: "contributes rep ''ndvi'' n \<longleftrightarrow>
          \<not> excluded_entry sd \<and> n \<in> set [''sentinel2'', ''landsat8'', ''irs''] \<and>
          reports_in_range (-1) 1 (extract_index ''ndvi'' sd)"
        unfolding contributes_char [OF s1 m(1) v dist mem] optical_reports ..
      have h2: "contributes rep ''evi'' n \<longleftrightarrow>
          \<not> excluded_entry sd \<and> n \<in> set [''sentinel2'', ''landsat8'', ''irs''] \<and>
          reports_in_range (-1) 1 (extract_index ''evi'' sd)"
        unfolding contributes_char [OF s2 m(2) v dist mem] optical_reports ..
      have h3: "contributes rep ''temperature'' n \<longleftrightarrow>
          \<not> excluded_entry sd \<and> reports_in_range 0 60 (extract_temperature n sd)"
        unfolding contributes_char [OF s3 m(3) v dist mem] temperature_reports ..
      have h4: "contributes rep ''soil_moisture'' n \<longleftrightarrow>
          \<not> excluded_entry sd \<and> n \<in> set [''sentinel1'', ''risat''] \<and>
          reports_in_range 0 100 (py_get sd ''soil_moisture_estimate'' PNone)"
        unfolding contributes_char [OF s4 m(4) v dist mem] moisture_reports ..
      show "case p of (n, sd) \<Rightarrow>
       (contributes rep ''ndvi'' n \<longleftrightarrow>
          \<not> excluded_entry sd \<and> n \<in> set [''sentinel2'', ''landsat8'', ''irs''] \<and>
          reports_in_range (-1) 1 (extract_index ''ndvi'' sd)) \<and>
       (contributes rep ''evi'' n \<longleftrightarrow>
          \<not> excluded_entry sd \<and> n \<in> set [''sentinel2'', ''landsat8'', ''irs''] \<and>
          reports_in_range (-1) 1 (extract_index ''evi'' sd)) \<and>
       (contributes rep ''temperature'' n \<longleftrightarrow>
          \<not> excluded_entry sd \<and> reports_in_range 0 60 (extract_temperature n sd)) \<and>
       (contributes rep ''soil_moisture'' n \<longleftrightarrow>
          \<not> excluded_entry sd \<and> n \<in> set [''sentinel1'', ''risat''] \<and>
          reports_in_range 0 100 (py_get sd ''soil_moisture_estimate'' PNone))"
        unfolding q prod.case using h1 h2 h3 h4 by (intro conjI)
    qed
  qed
qed

theorem missing_or_out_of_range_tolerated_witness:
  "\<exists>rep. fuse_satellite_data ''2026-11-03T12:00:00'' defective_input = Inr (Report rep) \<and>
     \<not> contributes rep ''ndvi'' ''sentinel2'' \<and> contributes rep ''evi'' ''sentinel2'' \<and>
     \<not> contributes rep ''ndvi'' ''landsat8'' \<and> contributes rep ''temperature'' ''landsat8''"
proof -
  have 1: "map_of defective_input ''satellites'' = Some (PDict defective_satellites)"
    by (simp add: defective_input_def)
  have 2: "distinct (map fst defective_satellites)"
    by (simp add: defective_satellites_def)
  have 3: "\<forall>(n, sd)\<in>set defective_satellites. well_shaped_source n sd"
    by (simp add: defective_satellites_def defective_sentinel2_def defective_landsat8_def
        field_ok_def)
  from missing_or_out_of_range_tolerated [OF 1 2 3, of "''2026-11-03T12:00:00''"]
  obtain rep where
    out: "fuse_satellite_data ''2026-11-03T12:00:00'' defective_input = Inr (Report rep)"
    and all: "\<forall>(n, sd)\<in>set defective_satellites.
       (contributes rep ''ndvi'' n \<longleftrightarrow>
          \<not> excluded_entry sd \<and> n \<in> set [''sentinel2'', ''landsat8'', ''irs''] \<and>
          reports_in_range (-1) 1 (extract_index ''ndvi'' sd)) \<and>
       (contributes rep ''evi'' n \<longleftrightarrow>
          \<not> excluded_entry sd \<and> n \<in> set [''sentinel2'', ''landsat8'', ''irs''] \<and>
          reports_in_range (-1) 1 (extract_index ''evi'' sd)) \<and>
       (contributes rep ''temperature'' n \<longleftrightarrow>
          \<not> excluded_entry sd \<and> reports_in_range 0 60 (extract_temperature n sd)) \<and>
       (contributes rep ''soil_moisture'' n \<longleftrightarrow>
          \<not> excluded_entry sd \<and> n \<in> set [''sentinel1'', ''risat''] \<and>
          reports_in_range 0 100 (py_get sd ''soil_moisture_estimate'' PNone))"
    by blast
  have s2: "(''sentinel2'', defective_sentinel2) \<in> set defective_satellites"
    and l8: "(''landsat8'', defective_landsat8) \<in> set defective_satellites"
    by (simp_all add: defective_satellites_def)
  have e: "\<not> excluded_entry defective_sentinel2" "\<not> excluded_entry defective_landsat8"
    "\<not> reports_in_range (-1) 1 (extract_index ''ndvi'' defective_sentinel2)"
    "reports_in_range (-1) 1 (extract_index ''evi'' defective_sentinel2)"
    "\<not> reports_in_range (-1) 1 (extract_index ''ndvi'' defective_landsat8)"
    "reports_in_range 0 60 (extract_temperature ''landsat8'' defective_landsat8)"
    by (simp_all add: defective_sentinel2_def defective_landsat8_def reports_in_range_def
        extract_index_def extract_temperature_def dict_get_def)
  from bspec [OF all s2] e have a: "\<not> contributes rep ''ndvi'' ''sentinel2''"
    "contributes rep ''evi'' ''sentinel2''"
    by simp_all
  from bspec [OF all l8] e have b: "\<not> contributes rep ''ndvi'' ''landsat8''"
    "contributes rep ''temperature'' ''landsat8''"
    by simp_all
  from out a b show ?thesis by blast
qed

section \<open>C4: the two shapes of a temperature\<close>




section \<open>C5: determinism\<close>

text \<open>
  C5, as the specification states it, fails: the report carries the time of the call, so
  two calls on one input at different times return different reports.
\<close>

theorem clock_counterexample:
  "fuse_satellite_data ''2026-11-03T12:00:00'' empty_input \<noteq>
   fuse_satellite_data ''2026-11-03T12:00:01'' empty_input"
  by (simp add: fuse_satellite_data_def empty_input_def dict_get_def)

text \<open>
  C5, amended. But for the time stamp, which is read from the clock, the outcome of a
  call is determined by the input mapping (and the static weight table): two calls on
  one input at any two times agree in everything else.
\<close>

theorem deterministic_but_for_clock:
  "without_timestamp (fuse_satellite_data now1 d) = without_timestamp (fuse_satellite_data now2 d)"
proof -
  define rep0 where "rep0 = \<lparr>timestamp = [], location = dict_get d ''location'' (PDict []),
      fused_metrics = [], cross_validation = [], confidence_scores = [], data_sources = [],
      consensus_level = ''Unknown'', overall_quality = ''Unknown'', overall_confidence = None,
      status = None, message = None\<rparr>"
  have r: "\<lparr>timestamp = now, location = dict_get d ''location'' (PDict []),
      fused_metrics = [], cross_validation = [], confidence_scores = [], data_sources = [],
      consensus_level = ''Unknown'', overall_quality = ''Unknown'', overall_confidence = None,
      status = None, message = None\<rparr> = rep0\<lparr>timestamp := now\<rparr>" for now
    by (simp add: rep0_def)
  have "without_timestamp (fuse_satellite_data now d) = without_timestamp (fuse_satellite_data [] d)"
    for now
    unfolding fuse_satellite_data_def Let_def r
    by (simp add: fuse_valid_timestamp split: sum.splits)
  from this [of now1] this [of now2] show ?thesis by simp
qed

section \<open>C6: sources that are not eligible\<close>

text \<open>
  C6. A source that is absent from the mapping, or whose entry is missing or empty, or
  whose status is none of \<^verbatim>\<open>success\<close>, \<^verbatim>\<open>fallback\<close>, \<^verbatim>\<open>simulated\<close> (as is \<^verbatim>\<open>error\<close>), never appears
  in \<^verbatim>\<open>data_sources\<close> and is a contributor of no metric; the report is the one the engine
  returns for the mapping without that source.
\<close>

theorem excluded_source_ignored:
  assumes "map_of d ''satellites'' = Some (PDict sats)"
    and "distinct (map fst sats)"
    and "source_excluded sats n"
    and "fuse_satellite_data now d = Inr (Report rep)"
  shows "n \<notin> set (data_sources rep) \<and>
    (\<forall>(m, cv)\<in>set (cross_validation rep). n \<notin> fst ` set (sources cv)) \<and>
    fuse_satellite_data now
      (dict_set ''satellites'' (PDict (filter (\<lambda>(k, sd). k \<noteq> n) sats)) d) = Inr (Report rep)"
proof -
  let ?valid = "filter (\<lambda>(k, sd). \<not> excluded_entry sd) sats"
  have ex: "\<forall>(k, sd)\<in>set sats. k = n \<longrightarrow> excluded_entry sd"
    using assms(3) assms(2) by (rule source_excluded_entries)
  then have n: "n \<notin> fst ` set ?valid" by auto
  have 1: "n \<notin> set (data_sources rep)"
    using n by (simp add: fuse_satellite_data_Report(1) [OF assms(1,2,4)])
  have 2: "\<forall>(m, cv)\<in>set (cross_validation rep). n \<notin> fst ` set (sources cv)"
    using n fuse_satellite_data_Report(2) [OF assms(1,2,4)] by blast
  have 3: "fuse_satellite_data now
      (dict_set ''satellites'' (PDict (filter (\<lambda>(k, sd). k \<noteq> n) sats)) d) = Inr (Report rep)"
    using fuse_satellite_data_drop [OF assms(1) ex] assms(4) by simp
  from 1 2 3 show ?thesis by blast
qed

theorem excluded_source_ignored_witness:
  "\<exists>rep. fuse_satellite_data ''2026-11-03T12:00:00'' partly_failed_input = Inr (Report rep) \<and>
     data_sources rep = [''sentinel2'', ''landsat8''] \<and>
     ''irs'' \<notin> set (data_sources rep) \<and>
     (\<forall>(m, cv)\<in>set (cross_validation rep). ''irs'' \<notin> fst ` set (sources cv)) \<and>
     fuse_satellite_data ''2026-11-03T12:00:00''
       (dict_set ''satellites'' (PDict (filter (\<lambda>(k, sd). k \<noteq> ''irs'') partly_failed_satellites))
          partly_failed_input) = Inr (Report rep)"
proof -
  obtain rep where
    out: "fuse_satellite_data ''2026-11-03T12:00:00'' partly_failed_input = Inr (Report rep)"
    and ds: "data_sources rep = [''sentinel2'', ''landsat8'']"
    by (simp add: partly_failed_input_def partly_failed_satellites_def fuse_satellite_data_def
        fuse_valid_def eval_defs calculate_overall_confidence_def
        calculate_consensus_level_def determine_quality_def power2_eq_square)
  have 1: "map_of partly_failed_input ''satellites'' = Some (PDict partly_failed_satellites)"
    by (simp add: partly_failed_input_def)
  have 2: "distinct (map fst partly_failed_satellites)"
    by (simp add: partly_failed_satellites_def)
  have 3: "source_excluded partly_failed_satellites ''irs''"
    by (simp add: source_excluded_def partly_failed_satellites_def dict_get_def)
  from excluded_source_ignored [OF 1 2 3 out] ds out show ?thesis by blast
qed

section \<open>C7: no valid source\<close>

text \<open>
  C7, as the specification states it, fails in one part: the report for the empty
  mapping has no \<^verbatim>\<open>overall_confidence\<close>.
\<close>

theorem no_valid_data_counterexample:
  "fuse_satellite_data ''2026-11-03T12:00:00'' empty_input =
     Inr (Report \<lparr>timestamp = ''2026-11-03T12:00:00'', location = PDict [],
       fused_metrics = [], cross_validation = [], confidence_scores = [], data_sources = [],
       consensus_level = ''Unknown'', overall_quality = ''Unknown'',
       overall_confidence = None, status = Some ''no_valid_data'',
       message = Some ''No valid satellite data available for fusion''\<rparr>)"
  by (simp add: fuse_satellite_data_def empty_input_def dict_get_def)

text \<open>
  C7, amended. When the filter drops every source, the engine returns, without fusing
  any metric, a report with the status \<^verbatim>\<open>no_valid_data\<close> and a message; the report has the
  time stamp, the location of the input, empty \<^verbatim>\<open>fused_metrics\<close>, \<^verbatim>\<open>cross_validation\<close>,
  \<^verbatim>\<open>confidence_scores\<close> and \<^verbatim>\<open>data_sources\<close>, and \<^verbatim>\<open>Unknown\<close> for the consensus level and
  the overall quality, and it has no \<^verbatim>\<open>overall_confidence\<close>.
\<close>

theorem no_valid_data_report:
  assumes "map_of d ''satellites'' = Some (PDict sats)"
    and "\<forall>(n, sd)\<in>set sats. excluded_entry sd"
  shows "fuse_satellite_data now d =
     Inr (Report \<lparr>timestamp = now, location = dict_get d ''location'' (PDict []),
       fused_metrics = [], cross_validation = [], confidence_scores = [], data_sources = [],
       consensus_level = ''Unknown'', overall_quality = ''Unknown'',
       overall_confidence = None, status = Some ''no_valid_data'',
       message = Some ''No valid satellite data available for fusion''\<rparr>)"
proof -
  from assms(1) have "d \<noteq> []" by auto
  moreover have "filter_valid_satellites (PDict sats) = Inr []"
    using filter_excluded [OF assms(2)] by simp
  ultimately show ?thesis
    using assms(1) by (simp add: fuse_satellite_data_def dict_get_def)
qed

theorem no_valid_data_report_witness:
  "fuse_satellite_data ''2026-11-03T12:00:00'' failed_input =
     Inr (Report \<lparr>timestamp = ''2026-11-03T12:00:00'',
       location = PDict [(''lat'', PNum 28.6139), (''lon'', PNum 77.2090)],
       fused_metrics = [], cross_validation = [], confidence_scores = [], data_sources = [],
       consensus_level = ''Unknown'', overall_quality = ''Unknown'',
       overall_confidence = None, status = Some ''no_valid_data'',
       message = Some ''No valid satellite data available for fusion''\<rparr>)"
proof -
  let ?sats = "[(''irs'', PDict [(''status'', PStr ''error''), (''error'', PStr ''timeout'')]),
          (''risat'', PNone), (''modis'', PDict [])]"
  have 1: "map_of failed_input ''satellites'' = Some (PDict ?sats)"
    by (simp add: failed_input_def)
  have 2: "\<forall>(n, sd)\<in>set ?sats. excluded_entry sd"
    by (simp add: dict_get_def)
  have 3: "dict_get failed_input ''location'' (PDict []) =
      PDict [(''lat'', PNum 28.6139), (''lon'', PNum 77.2090)]"
    by (simp add: failed_input_def dict_get_def)
  show ?thesis using no_valid_data_report [OF 1 2, of "''2026-11-03T12:00:00''"] 3 by simp
qed

section \<open>C8: the concrete scenario\<close>

text \<open>
  C8, as the specification states it, fails in its last part: for the three sources of the
  scenario the confidence of the NDVI is 637/750, about 0.849, which is not greater
  than 0.9.
\<close>

theorem scenario_confidence_counterexample:
  "fuse_ndvi scenario_satellites =
     Inr (Some \<lparr>val = 1729 / 2700, confidence = 637 / 750,
       cross_val = \<lparr>sources = [(''sentinel2'', 0.65), (''landsat8'', 0.63), (''irs'', 0.64)],
         fused = 1729 / 2700, variance = 1 / 15000, agreement = ''High'', num_sources = 3\<rparr>\<rparr>) \<and>
   \<not> (637 / 750 > (0.9::real))"
  by (simp add: scenario_satellites_def eval_defs power2_eq_square)

text \<open>
  C8, amended. For the three sources of the scenario the report holds the fused NDVI
  1729/2700 (the weighted mean, within 0.001 of 0.641), the variance 1/15000 (about
  0.00007), the agreement \<^verbatim>\<open>High\<close>, and the confidence 637/750, which lies between 0.849
  and 0.85.
\<close>

theorem scenario_report:
  "fuse_satellite_data now scenario_input =
     Inr (Report \<lparr>timestamp = now, location = PDict [],
       fused_metrics = [(''ndvi'', 1729 / 2700)],
       cross_validation = [(''ndvi'',
          \<lparr>sources = [(''sentinel2'', 0.65), (''landsat8'', 0.63), (''irs'', 0.64)],
            fused = 1729 / 2700, variance = 1 / 15000, agreement = ''High'', num_sources = 3\<rparr>)],
       confidence_scores = [(''ndvi'', 637 / 750)],
       data_sources = [''sentinel2'', ''landsat8'', ''irs''],
       consensus_level = ''High'', overall_quality = ''Good'',
       overall_confidence = Some (637 / 750), status = Some ''success'', message = None\<rparr>) \<and>
   \<bar>1729 / 2700 - 0.641\<bar> < (0.001::real) \<and>
   \<bar>1 / 15000 - 0.00007\<bar> < (0.000005::real) \<and>
   (0.849::real) < 637 / 750 \<and> 637 / 750 < (0.85::real)"
proof -
  have "fuse_valid scenario_satellites
      \<lparr>timestamp = now, location = PDict [], fused_metrics = [], cross_validation = [],
        confidence_scores = [], data_sources = [], consensus_level = ''Unknown'',
        overall_quality = ''Unknown'', overall_confidence = None, status = None,
        message = None\<rparr> =
     Inr \<lparr>timestamp = now, location = PDict [],
       fused_metrics = [(''ndvi'', 1729 / 2700)],
       cross_validation = [(''ndvi'',
          \<lparr>sources = [(''sentinel2'', 0.65), (''landsat8'', 0.63), (''irs'', 0.64)],
            fused = 1729 / 2700, variance = 1 / 15000, agreement = ''High'', num_sources = 3\<rparr>)],
       confidence_scores = [(''ndvi'', 637 / 750)],
       data_sources = [''sentinel2'', ''landsat8'', ''irs''],
       consensus_level = ''High'', overall_quality = ''Good'',
       overall_confidence = Some (637 / 750), status = Some ''success'', message = None\<rparr>"
    by (simp add: fuse_valid_def scenario_ndvi scenario_temperature scenario_moisture
        scenario_evi scenario_nonempty calculate_overall_confidence_def
        calculate_consensus_level_def determine_quality_def Let_def)
  then show ?thesis
    by (simp add: fuse_satellite_data_def scenario_input_def scenario_filter scenario_nonempty
        dict_get_def Let_def)
qed

section \<open>C9: one more agreeing source\<close>

text \<open>
  C9. For every metric, when one more source is added to the mapping and all the
  contributors of the metric then report one and the same value (the case of a new
  contributor that agrees with the existing ones), the confidence of the metric is not
  smaller than it was without that source.
\<close>

theorem agreeing_source_monotone:
  "(\<forall>r r'. fuse_ndvi (pre @ post) = Inr (Some r) \<longrightarrow>
      fuse_ndvi (pre @ (n, sd) # post) = Inr (Some r') \<longrightarrow>
      (\<forall>(m, x)\<in>set (sources (cross_val r')). x = v) \<longrightarrow> confidence r \<le> confidence r') \<and>
   (\<forall>r r'. fuse_evi (pre @ post) = Inr (Some r) \<longrightarrow>
      fuse_evi (pre @ (n, sd) # post) = Inr (Some r') \<longrightarrow>
      (\<forall>(m, x)\<in>set (sources (cross_val r')). x = v) \<longrightarrow> confidence r \<le> confidence r') \<and>
   (\<forall>r r'. fuse_temperature (pre @ post) = Inr (Some r) \<longrightarrow>
      fuse_temperature (pre @ (n, sd) # post) = Inr (Some r') \<longrightarrow>
      (\<forall>(m, x)\<in>set (sources (cross_val r')). x = v) \<longrightarrow> confidence r \<le> confidence r') \<and>
   (\<forall>r r'. fuse_moisture (pre @ post) = Inr (Some r) \<longrightarrow>
      fuse_moisture (pre @ (n, sd) # post) = Inr (Some r') \<longrightarrow>
      (\<forall>(m, x)\<in>set (sources (cross_val r')). x = v) \<longrightarrow> confidence r \<le> confidence r')"
proof (intro conjI allI impI)
  fix r r'
  assume "fuse_ndvi (pre @ post) = Inr (Some r)" "fuse_ndvi (pre @ (n, sd) # post) = Inr (Some r')"
    and s: "\<forall>(m, x)\<in>set (sources (cross_val r')). x = v"
  then obtain srcs srcs' where
    "collect (optical_ext ''ndvi'') (-1) 1 (pre @ post) [] = Inr srcs"
    "collect (optical_ext ''ndvi'') (-1) 1 (pre @ (n, sd) # post) [] = Inr srcs'"
    "fuse_contributors srcs 0.04 0.02 0.05 = Inr (Some r)"
    "fuse_contributors srcs' 0.04 0.02 0.05 = Inr (Some r')"
    unfolding fuse_ndvi_collect by blast
  then show "confidence r \<le> confidence r'" using s by (rule confidence_mono) simp
next
  fix r r'
  assume "fuse_evi (pre @ post) = Inr (Some r)" "fuse_evi (pre @ (n, sd) # post) = Inr (Some r')"
    and s: "\<forall>(m, x)\<in>set (sources (cross_val r')). x = v"
  then obtain srcs srcs' where
    "collect (optical_ext ''evi'') (-1) 1 (pre @ post) [] = Inr srcs"
    "collect (optical_ext ''evi'') (-1) 1 (pre @ (n, sd) # post) [] = Inr srcs'"
    "fuse_contributors srcs 0.04 0.02 0.05 = Inr (Some r)"
    "fuse_contributors srcs' 0.04 0.02 0.05 = Inr (Some r')"
    unfolding fuse_evi_collect by blast
  then show "confidence r \<le> confidence r'" using s by (rule confidence_mono) simp
next
  fix r r'
  assume "fuse_temperature (pre @ post) = Inr (Some r)"
    "fuse_temperature (pre @ (n, sd) # post) = Inr (Some r')"
    and s: "\<forall>(m, x)\<in>set (sources (cross_val r')). x = v"
  then obtain srcs srcs' where
    "collect extract_temperature 0 60 (pre @ post) [] = Inr srcs"
    "collect extract_temperature 0 60 (pre @ (n, sd) # post) [] = Inr srcs'"
    "fuse_contributors srcs 4 1 3 = Inr (Some r)"
    "fuse_contributors srcs' 4 1 3 = Inr (Some r')"
    unfolding fuse_temperature_collect by blast
  then show "confidence r \<le> confidence r'" using s by (rule confidence_mono) simp
next
  fix r r'
  assume "fuse_moisture (pre @ post) = Inr (Some r)"
    "fuse_moisture (pre @ (n, sd) # post) = Inr (Some r')"
    and s: "\<forall>(m, x)\<in>set (sources (cross_val r')). x = v"
  then obtain srcs srcs' where
    "collect moisture_ext 0 100 (pre @ post) [] = Inr srcs"
    "collect moisture_ext 0 100 (pre @ (n, sd) # post) [] = Inr srcs'"
    "fuse_contributors srcs 100 25 50 = Inr (Some r)"
    "fuse_contributors srcs' 100 25 50 = Inr (Some r')"
    unfolding fuse_moisture_collect by blast
  then show "confidence r \<le> confidence r'" using s by (rule confidence_mono) simp
qed

theorem agreeing_source_monotone_witness:
  "(\<exists>r r'. fuse_ndvi ([(''sentinel2'', agreeing_source)] @ []) = Inr (Some r) \<and>
      fuse_ndvi ([(''sentinel2'', agreeing_source)] @ (''landsat8'', agreeing_source) # []) =
        Inr (Some r') \<and>
      confidence r = 11 / 20 \<and> confidence r' = 7 / 10 \<and> confidence r \<le> confidence r') \<and>
   (\<exists>r r'. fuse_evi ([(''sentinel2'', agreeing_source)] @ []) = Inr (Some r) \<and>
      fuse_evi ([(''sentinel2'', agreeing_source)] @ (''landsat8'', agreeing_source) # []) =
        Inr (Some r') \<and>
      confidence r = 11 / 20 \<and> confidence r' = 7 / 10 \<and> confidence r \<le> confidence r') \<and>
   (\<exists>r r'. fuse_temperature ([(''landsat8'', agreeing_source)] @ []) = Inr (Some r) \<and>
      fuse_temperature ([(''landsat8'', agreeing_source)] @ (''irs'', agreeing_source) # []) =
        Inr (Some r') \<and>
      confidence r = 11 / 20 \<and> confidence r' = 7 / 10 \<and> confidence r \<le> confidence r') \<and>
   (\<exists>r r'. fuse_moisture ([(''sentinel1'', agreeing_source)] @ []) = Inr (Some r) \<and>
      fuse_moisture ([(''sentinel1'', agreeing_source)] @ (''risat'', agreeing_source) # []) =
        Inr (Some r') \<and>
      confidence r = 11 / 20 \<and> confidence r' = 7 / 10 \<and> confidence r \<le> confidence r')"
proof -
  have 1: "\<exists>r r'. fuse_ndvi ([(''sentinel2'', agreeing_source)] @ []) = Inr (Some r) \<and>
      fuse_ndvi ([(''sentinel2'', agreeing_source)] @ (''landsat8'', agreeing_source) # []) =
        Inr (Some r') \<and>
      confidence r = 11 / 20 \<and> confidence r' = 7 / 10 \<and> confidence r \<le> confidence r'"
  proof -
    obtain r where h: "fuse_ndvi ([(''sentinel2'', agreeing_source)] @ []) = Inr (Some r)"
      and c: "confidence r = 11 / 20"
      by (simp add: agreeing_source_def eval_defs)
    obtain r' where h': "fuse_ndvi ([(''sentinel2'', agreeing_source)] @
          (''landsat8'', agreeing_source) # []) = Inr (Some r')"
      and c': "confidence r' = 7 / 10"
      and s: "\<forall>(m, x)\<in>set (sources (cross_val r')). x = 0.65"
      by (simp add: agreeing_source_def eval_defs power2_eq_square)
    have "confidence r \<le> confidence r'"
      by (rule agreeing_source_monotone [of "[(''sentinel2'', agreeing_source)]" "[]"
            "''landsat8''" agreeing_source "0.65", THEN conjunct1, THEN spec, THEN spec,
            THEN mp, THEN mp, THEN mp, OF h h' s])
    with h h' c c' show ?thesis by blast
  qed
  have 2: "\<exists>r r'. fuse_evi ([(''sentinel2'', agreeing_source)] @ []) = Inr (Some r) \<and>
      fuse_evi ([(''sentinel2'', agreeing_source)] @ (''landsat8'', agreeing_source) # []) =
        Inr (Some r') \<and>
      confidence r = 11 / 20 \<and> confidence r' = 7 / 10 \<and> confidence r \<le> confidence r'"
  proof -
    obtain r where h: "fuse_evi ([(''sentinel2'', agreeing_source)] @ []) = Inr (Some r)"
      and c: "confidence r = 11 / 20"
      by (simp add: agreeing_source_def eval_defs)
    obtain r' where h': "fuse_evi ([(''sentinel2'', agreeing_source)] @
          (''landsat8'', agreeing_source) # []) = Inr (Some r')"
      and c': "confidence r' = 7 / 10"
      and s: "\<forall>(m, x)\<in>set (sources (cross_val r')). x = 0.5"
      by (simp add: agreeing_source_def eval_defs power2_eq_square)
    have "confidence r \<le> confidence r'"
      by (rule agreeing_source_monotone [of "[(''sentinel2'', agreeing_source)]" "[]"
            "''landsat8''" agreeing_source "0.5", THEN conjunct2, THEN conjunct1, THEN spec, THEN spec,
            THEN mp, THEN mp, THEN mp, OF h h' s])
    with h h' c c' show ?thesis by blast
  qed
  have 3: "\<exists>r r'. fuse_temperature ([(''landsat8'', agreeing_source)] @ []) = Inr (Some r) \<and>
      fuse_temperature ([(''landsat8'', agreeing_source)] @ (''irs'', agreeing_source) # []) =
        Inr (Some r') \<and>
      confidence r = 11 / 20 \<and> confidence r' = 7 / 10 \<and> confidence r \<le> confidence r'"
  proof -
    obtain r where h: "fuse_temperature ([(''landsat8'', agreeing_source)] @ []) = Inr (Some r)"
      and c: "confidence r = 11 / 20"
      by (simp add: agreeing_source_def eval_defs)
    obtain r' where h': "fuse_temperature ([(''landsat8'', agreeing_source)] @
          (''irs'', agreeing_source) # []) = Inr (Some r')"
      and c': "confidence r' = 7 / 10"
      and s: "\<forall>(m, x)\<in>set (sources (cross_val r')). x = 24"
      by (simp add: agreeing_source_def eval_defs power2_eq_square)
    have "confidence r \<le> confidence r'"
      by (rule agreeing_source_monotone [of "[(''landsat8'', agreeing_source)]" "[]"
            "''irs''" agreeing_source "24", THEN conjunct2, THEN conjunct2, THEN conjunct1, THEN spec, THEN spec,
            THEN mp, THEN mp, THEN mp, OF h h' s])
    with h h' c c' show ?thesis by blast
  qed
  have 4: "\<exists>r r'. fuse_moisture ([(''sentinel1'', agreeing_source)] @ []) = Inr (Some r) \<and>
      fuse_moisture ([(''sentinel1'', agreeing_source)] @ (''risat'', agreeing_source) # []) =
        Inr (Some r') \<and>
      confidence r = 11 / 20 \<and> confidence r' = 7 / 10 \<and> confidence r \<le> confidence r'"
  proof -
    obtain r where h: "fuse_moisture ([(''sentinel1'', agreeing_source)] @ []) = Inr (Some r)"
      and c: "confidence r = 11 / 20"
      by (simp add: agreeing_source_def eval_defs)
    obtain r' where h': "fuse_moisture ([(''sentinel1'', agreeing_source)] @
          (''risat'', agreeing_source) # []) = Inr (Some r')"
      and c': "confidence r' = 7 / 10"
      and s: "\<forall>(m, x)\<in>set (sources (cross_val r')). x = 45"
      by (simp add: agreeing_source_def eval_defs power2_eq_square)
    have "confidence r \<le> confidence r'"
      by (rule agreeing_source_monotone [of "[(''sentinel1'', agreeing_source)]" "[]"
            "''risat''" agreeing_source "45", THEN conjunct2, THEN conjunct2, THEN conjunct2, THEN spec, THEN spec,
            THEN mp, THEN mp, THEN mp, OF h h' s])
    with h h' c c' show ?thesis by blast
  qed
  from 1 2 3 4 show ?thesis by (intro conjI)
qed

section \<open>C10: the bounds of the temperature\<close>

text \<open>
  C10. A temperature contributes only when the extracted number lies in \<open>[0, 60]\<close>: every
  recorded contribution is within these bounds, a source that reports a temperature below
  0 or above 60 is dropped without an error (the routine returns what it returns without
  that source), and a source that reports a number within the bounds does contribute.
\<close>

theorem temperature_bounds:
  "(\<forall>r. fuse_temperature sats = Inr (Some r) \<longrightarrow>
      (\<forall>(m, v)\<in>set (sources (cross_val r)). 0 \<le> v \<and> v \<le> 60)) \<and>
   (\<forall>x t. extract_temperature n sd = Inr x \<longrightarrow> number_of x = Some t \<longrightarrow> t < 0 \<or> 60 < t \<longrightarrow>
      fuse_temperature (pre @ (n, sd) # post) = fuse_temperature (pre @ post)) \<and>
   (\<forall>x t res. (n, sd) \<in> set sats \<longrightarrow> extract_temperature n sd = Inr x \<longrightarrow>
      number_of x = Some t \<longrightarrow> 0 \<le> t \<longrightarrow> t \<le> 60 \<longrightarrow> fuse_temperature sats = Inr res \<longrightarrow>
      (\<exists>r. res = Some r \<and> n \<in> fst ` set (sources (cross_val r))))"
proof (intro conjI allI impI)
  fix r assume "fuse_temperature sats = Inr (Some r)"
  then have "contributions_unclamped extract_temperature 0 60 sats r"
    using temperature_within by blast
  then show "\<forall>(m, v)\<in>set (sources (cross_val r)). 0 \<le> v \<and> v \<le> 60"
    unfolding contributions_unclamped_def by fast
next
  fix x t assume "extract_temperature n sd = Inr x" "number_of x = Some t" "t < 0 \<or> 60 < t"
  then show "fuse_temperature (pre @ (n, sd) # post) = fuse_temperature (pre @ post)"
    by (intro fuse_temperature_skip out_of_range_None)
next
  fix x t res
  assume m: "(n, sd) \<in> set sats" and x: "extract_temperature n sd = Inr x"
    and t: "number_of x = Some t" "0 \<le> t" "t \<le> 60" and f: "fuse_temperature sats = Inr res"
  from f obtain srcs where c: "collect extract_temperature 0 60 sats [] = Inr srcs"
    and fc: "fuse_contributors srcs 4 1 3 = Inr res"
    unfolding fuse_temperature_collect by blast
  from t have "accept 0 60 x = Inr (Some t)" by (simp add: accept_Some)
  with m x have k: "n \<in> fst ` set srcs" unfolding collect_keys [OF c] by blast
  then have ne: "srcs \<noteq> []" by auto
  with fc obtain r where r: "res = Some r"
    by (auto simp: fuse_contributors_def Let_def split: if_splits)
  with fc have "sources (cross_val r) = map (\<lambda>(n, v, w). (n, v)) srcs"
    by (simp add: fuse_contributors_Some)
  then have "fst ` set (sources (cross_val r)) = fst ` set srcs" by force
  with k r show "\<exists>r. res = Some r \<and> n \<in> fst ` set (sources (cross_val r))" by simp
qed

theorem temperature_bounds_witness:
  "(\<exists>r. fuse_temperature freezing_satellites = Inr (Some r) \<and>
        (\<forall>(m, v)\<in>set (sources (cross_val r)). 0 \<le> v \<and> v \<le> 60) \<and>
        ''modis'' \<in> fst ` set (sources (cross_val r))) \<and>
   fuse_temperature ([] @ (''landsat8'', freezing_landsat8) # [(''modis'', modis_profile)]) =
     fuse_temperature ([] @ [(''modis'', modis_profile)])"
proof -
  obtain r where h: "fuse_temperature freezing_satellites = Inr (Some r)"
    by (simp add: freezing_satellites_def freezing_landsat8_def modis_profile_def eval_defs)
  have c: "extract_temperature ''landsat8'' freezing_landsat8 = Inr (PNum (-5))"
    "number_of (PNum (-5)) = Some (-5)" "(-5::real) < 0 \<or> 60 < (-5::real)"
    by (simp_all add: freezing_landsat8_def extract_temperature_def dict_get_def)
  have m: "(''modis'', modis_profile) \<in> set freezing_satellites"
    "extract_temperature ''modis'' modis_profile = Inr (PNum 24)"
    "number_of (PNum 24) = Some 24" "(0::real) \<le> 24" "(24::real) \<le> 60"
    by (simp_all add: freezing_satellites_def modis_profile_def extract_temperature_def
        dict_get_def)
  note a = temperature_bounds [of freezing_satellites "''landsat8''" freezing_landsat8 "[]"
      "[(''modis'', modis_profile)]"]
  note b = temperature_bounds [of freezing_satellites "''modis''" modis_profile]
  have c1: "\<forall>(m, v)\<in>set (sources (cross_val r)). 0 \<le> v \<and> v \<le> 60"
    by (rule a [THEN conjunct1, THEN spec, THEN mp, OF h])
  have c2: "fuse_temperature ([] @ (''landsat8'', freezing_landsat8) # [(''modis'', modis_profile)]) =
      fuse_temperature ([] @ [(''modis'', modis_profile)])"
    by (rule a [THEN conjunct2, THEN conjunct1, rule_format, OF c])
  have "\<exists>r'. Some r = Some r' \<and> ''modis'' \<in> fst ` set (sources (cross_val r'))"
    by (rule b [THEN conjunct2, THEN conjunct2, rule_format, OF m h])
  then have c3: "''modis'' \<in> fst ` set (sources (cross_val r))" by simp
  from h c1 c2 c3 show ?thesis by blast
qed

end
